theory Spec2Isabelle
  imports Main "HOL-Library.AList" "HOL-Library.Sublist"
begin

section \<open>Per-window preview servers: \<^verbatim>\<open>newIDE/electron-app/app/ServeFolder.js\<close>\<close>

text \<open>
  The module keeps one process-wide \<^verbatim>\<open>Map\<close>, \<^verbatim>\<open>serversByWindow\<close>, from a window id to
  \<^verbatim>\<open>{ serverParams, httpServer }\<close>, and exports \<^verbatim>\<open>serveFolder\<close>, \<^verbatim>\<open>stopServer\<close> and
  \<^verbatim>\<open>stopAllServers\<close>. Every server it starts answers requests with the same
  \<^verbatim>\<open>requestHandler\<close>, a closure over the \<^verbatim>\<open>root\<close> it was started for.

  The embedding has two layers. The functions of the module are translated line by line.
  The functions of the JavaScript language and of the Node.js runtime that they call
  (\<^verbatim>\<open>decodeURIComponent\<close>, \<^verbatim>\<open>url.parse\<close>, \<^verbatim>\<open>path.join\<close>, \<^verbatim>\<open>path.extname\<close>,
  \<^verbatim>\<open>fs.readFile\<close>, \<^verbatim>\<open>server.listen\<close>, \<^verbatim>\<open>server.close\<close>) are modelled from their
  documented behaviour; what the operating system decides (is the file readable, is the
  port free) is an explicit argument of the model.

  Strings are byte strings: a JavaScript string is represented by its UTF-8 encoding.
  File paths follow the POSIX flavour of the \<^verbatim>\<open>path\<close> module.
\<close>

subsection \<open>Errors\<close>

text \<open>
  \<^verbatim>\<open>URIError\<close> is the exception of the language that \<^verbatim>\<open>decodeURIComponent\<close> throws.
  \<^verbatim>\<open>TypeError\<close> is what the runtime throws when it refuses an argument, named by its code
  (\<^verbatim>\<open>ERR_INVALID_ARG_VALUE\<close>, ...). Every other error comes from the runtime or the
  operating system and is named by its code (\<^verbatim>\<open>ENOENT\<close>, \<^verbatim>\<open>EACCES\<close>, \<^verbatim>\<open>EADDRINUSE\<close>,
  ...).
\<close>

datatype js_error = URIError | TypeError string | SystemError string

subsection \<open>\<^verbatim>\<open>decodeURIComponent\<close>\<close>

text \<open>
  ECMAScript's \<^verbatim>\<open>Decode\<close> with an empty reserved set. A \<^verbatim>\<open>%\<close> must be followed by two
  hexadecimal digits. An octet below 128 is the character itself. An octet from 128 on
  must start a well-formed UTF-8 sequence whose other octets are escaped too. Anything
  else throws \<^verbatim>\<open>URIError\<close>.
\<close>

definition hex_digit :: "char \<Rightarrow> nat option" where
  "hex_digit c =
     (let n = (of_char c :: nat) in
      if 48 \<le> n \<and> n \<le> 57 then Some (n - 48)
      else if 65 \<le> n \<and> n \<le> 70 then Some (n - 55)
      else if 97 \<le> n \<and> n \<le> 102 then Some (n - 87)
      else None)"

datatype uri_token = Lit char | Octet nat

text \<open>First the escapes are read: \<^verbatim>\<open>None\<close> when a \<^verbatim>\<open>%\<close> lacks its two digits.\<close>

fun percent_tokens :: "string \<Rightarrow> uri_token list option" where
  "percent_tokens [] = Some []"
| "percent_tokens (c # cs) =
     (if c = CHR ''%'' then
        (case cs of
           h1 # h2 # rest \<Rightarrow>
             (case (hex_digit h1, hex_digit h2) of
                (Some a, Some b) \<Rightarrow>
                  map_option (Cons (Octet (16 * a + b))) (percent_tokens rest)
              | _ \<Rightarrow> None)
         | _ \<Rightarrow> None)
      else map_option (Cons (Lit c)) (percent_tokens cs))"

text \<open>
  The number of leading one bits of an octet: the length of the UTF-8 sequence it
  starts. 1 is a continuation octet, 5 stands for every length above 4.
\<close>

definition utf8_length :: "nat \<Rightarrow> nat" where
  "utf8_length b =
     (if b < 128 then 0 else if b < 192 then 1 else if b < 224 then 2
      else if b < 240 then 3 else if b < 248 then 4 else 5)"

fun is_continuation :: "uri_token \<Rightarrow> bool" where
  "is_continuation (Octet b) = (128 \<le> b \<and> b < 192)"
| "is_continuation (Lit c) = False"

fun octet_of :: "uri_token \<Rightarrow> nat" where
  "octet_of (Octet b) = b"
| "octet_of (Lit c) = of_char c"

definition utf8_code_point :: "nat \<Rightarrow> nat \<Rightarrow> nat list \<Rightarrow> nat" where
  "utf8_code_point n b conts =
     fold (\<lambda>c acc. acc * 64 + (c - 128)) conts
       (b - (if n = 2 then 192 else if n = 3 then 224 else 240))"

text \<open>No overlong encoding, no surrogate, nothing above U+10FFFF.\<close>

definition utf8_valid :: "nat \<Rightarrow> nat \<Rightarrow> bool" where
  "utf8_valid n cp =
     (if n = 2 then 128 \<le> cp
      else if n = 3 then 2048 \<le> cp \<and> (cp < 55296 \<or> 57343 < cp)
      else 65536 \<le> cp \<and> cp \<le> 1114111)"

function utf8_decode :: "uri_token list \<Rightarrow> string option" where
  "utf8_decode [] = Some []"
| "utf8_decode (Lit c # ts) = map_option (Cons c) (utf8_decode ts)"
| "utf8_decode (Octet b # ts) =
     (let n = utf8_length b in
      if n = 0 then map_option (Cons (char_of b)) (utf8_decode ts)
      else if n = 1 \<or> 4 < n then None
      else if length ts < n - 1 then None
      else
        (let conts = take (n - 1) ts in
         if list_all is_continuation conts
            \<and> utf8_valid n (utf8_code_point n b (map octet_of conts))
         then map_option ((@) (map char_of (b # map octet_of conts)))
                (utf8_decode (drop (n - 1) ts))
         else None))"
  by pat_completeness auto
termination
  by (relation "measure length") auto

definition decodeURIComponent :: "string \<Rightarrow> js_error + string" where
  "decodeURIComponent encoded =
     (case percent_tokens encoded of
        None \<Rightarrow> Inl URIError
      | Some ts \<Rightarrow>
          (case utf8_decode ts of
             None \<Rightarrow> Inl URIError
           | Some decoded \<Rightarrow> Inr decoded))"

subsection \<open>\<^verbatim>\<open>url.parse\<close>\<close>

text \<open>
  The handler reads \<^verbatim>\<open>url.parse(req.url).pathname\<close>, with the legacy parser of
  \<^verbatim>\<open>lib/url.js\<close>. The parser first replaces every backslash that stands before the first
  \<^verbatim>\<open>?\<close> or \<^verbatim>\<open>#\<close> by a slash, and trims white space at both ends. When the target then
  has no \<^verbatim>\<open>#\<close>, has no \<^verbatim>\<open>@\<close> before its first \<^verbatim>\<open>?\<close>, and matches

  \<^verbatim>\<open>simplePathPattern = /^(\/\/?(?!\/)[^?\s]*)(\?[^\s]*)?$/\<close>

  the pathname is the first group: what stands before the first \<^verbatim>\<open>?\<close>. This is the case of
  a request target in origin form, \<^verbatim>\<open>/path?query\<close>.

  \<open>simple_path\<close> holds of targets that take this way: those of visible ASCII characters,
  none of them \<^verbatim>\<open>#\<close> or \<^verbatim>\<open>@\<close>, that start with a slash and not with three after the
  backslashes have been replaced.
\<close>

record request =
  url :: string

definition backslashes_to_slashes :: "string \<Rightarrow> string" where
  "backslashes_to_slashes s = map (\<lambda>c. if c = CHR 0x5C then CHR ''/'' else c) s"

definition before_query :: "string \<Rightarrow> string" where
  "before_query u = takeWhile (\<lambda>c. c \<noteq> CHR ''?'') u"

definition visible_ascii :: "char \<Rightarrow> bool" where
  "visible_ascii c = (33 \<le> (of_char c :: nat) \<and> (of_char c :: nat) \<le> 126)"

definition simple_path :: "string \<Rightarrow> bool" where
  "simple_path u =
     (let p = backslashes_to_slashes (before_query u) in
      list_all visible_ascii u
      \<and> CHR ''#'' \<notin> set u
      \<and> CHR ''@'' \<notin> set u
      \<and> take 1 p = ''/''
      \<and> take 3 p \<noteq> ''///'')"

text \<open>
  Every other target goes through the general parser, which reads a scheme, an authority
  (\<^verbatim>\<open>//user@host:port\<close>) and a fragment, escapes some characters, and whose checks of the
  host name differ between versions of Node.js; it may throw, and its pathname may be
  \<^verbatim>\<open>null\<close>. The general parser is an argument of the model: nothing is assumed about what
  it answers. \<^verbatim>\<open>decodeURIComponent(null)\<close> decodes the string \<^verbatim>\<open>"null"\<close>.
\<close>

type_synonym url_parser = "string \<Rightarrow> js_error + string option"

definition url_parse_pathname :: "url_parser \<Rightarrow> string \<Rightarrow> js_error + string option" where
  "url_parse_pathname general u =
     (if simple_path u then Inr (Some (backslashes_to_slashes (before_query u)))
      else general u)"

fun js_ToString :: "string option \<Rightarrow> string" where
  "js_ToString None = ''null''"
| "js_ToString (Some s) = s"

definition endsWith :: "string \<Rightarrow> string \<Rightarrow> bool" where
  "endsWith s searchString =
     (length searchString \<le> length s
      \<and> drop (length s - length searchString) s = searchString)"

subsection \<open>\<^verbatim>\<open>path.join\<close> and \<^verbatim>\<open>path.extname\<close> (POSIX)\<close>

fun split_slash :: "string \<Rightarrow> string list" where
  "split_slash [] = [[]]"
| "split_slash (c # cs) =
     (if c = CHR ''/'' then [] # split_slash cs
      else (case split_slash cs of
              [] \<Rightarrow> [[c]]
            | seg # segs \<Rightarrow> (c # seg) # segs))"

fun join_slash :: "string list \<Rightarrow> string" where
  "join_slash [] = []"
| "join_slash [seg] = seg"
| "join_slash (seg # segs) = seg @ CHR ''/'' # join_slash segs"

text \<open>
  \<^verbatim>\<open>normalizeString\<close> of \<^verbatim>\<open>lib/path.js\<close>, on segments: empty and \<^verbatim>\<open>.\<close> segments vanish,
  \<^verbatim>\<open>..\<close> removes the segment before it, and where there is none it is kept only in a
  relative path (\<^verbatim>\<open>allowAboveRoot\<close>).
\<close>

fun normalizeString :: "bool \<Rightarrow> string list \<Rightarrow> string list \<Rightarrow> string list" where
  "normalizeString allowAboveRoot res [] = res"
| "normalizeString allowAboveRoot res (seg # segs) =
     (if seg = [] \<or> seg = ''.'' then normalizeString allowAboveRoot res segs
      else if seg = ''..'' then
        (if res \<noteq> [] \<and> last res \<noteq> ''..''
         then normalizeString allowAboveRoot (butlast res) segs
         else if allowAboveRoot
         then normalizeString allowAboveRoot (res @ [''..'']) segs
         else normalizeString allowAboveRoot res segs)
      else normalizeString allowAboveRoot (res @ [seg]) segs)"

definition path_normalize :: "string \<Rightarrow> string" where
  "path_normalize p =
     (if p = [] then ''.''
      else
        (let isAbsolute = (hd p = CHR ''/'');
             trailingSeparator = (last p = CHR ''/'');
             res = join_slash (normalizeString (\<not> isAbsolute) [] (split_slash p))
         in if res = []
            then (if isAbsolute then ''/'' else if trailingSeparator then ''./'' else ''.'')
            else (if isAbsolute then ''/'' else [])
                 @ res @ (if trailingSeparator then ''/'' else [])))"

definition path_join :: "string list \<Rightarrow> string" where
  "path_join args =
     (let joined = join_slash (filter (\<lambda>arg. arg \<noteq> []) args) in
      if joined = [] then ''.'' else path_normalize joined)"

text \<open>
  \<^verbatim>\<open>path.extname\<close>: from the last \<^verbatim>\<open>.\<close> of the last segment to its end; empty when the
  segment has no \<^verbatim>\<open>.\<close>, when its only \<^verbatim>\<open>.\<close> is its first character, and for \<^verbatim>\<open>..\<close>.
\<close>

definition last_segment :: "string \<Rightarrow> string" where
  "last_segment p =
     (case filter (\<lambda>seg. seg \<noteq> []) (split_slash p) of
        [] \<Rightarrow> []
      | seg # segs \<Rightarrow> last (seg # segs))"

definition path_extname :: "string \<Rightarrow> string" where
  "path_extname p =
     (let base = last_segment p in
      if CHR ''.'' \<notin> set base then []
      else
        (let ext = CHR ''.'' # rev (takeWhile (\<lambda>c. c \<noteq> CHR ''.'') (rev base)) in
         if length ext = length base then []
         else if base = ''..'' then []
         else ext))"

subsection \<open>\<^verbatim>\<open>fs.readFile\<close> and the response object\<close>

text \<open>
  What \<^verbatim>\<open>fs.readFile(filePath, callback)\<close> does with a path: it calls back with an error,
  or with the data, or it throws before it reads anything.
\<close>

datatype read_outcome = ReadThrows js_error | ReadFails js_error | ReadData string

type_synonym filesystem = "string \<Rightarrow> read_outcome"

text \<open>
  \<^verbatim>\<open>fs.readFile\<close> of Node.js checks its argument before it asks the operating system: a
  path that holds a NUL byte is refused with a \<^verbatim>\<open>TypeError\<close> of code
  \<^verbatim>\<open>ERR_INVALID_ARG_VALUE\<close>, thrown to the caller of \<^verbatim>\<open>readFile\<close>; the callback is not
  called. For every other path the answer is that of the disk.
\<close>

definition fs_readFile :: "filesystem \<Rightarrow> filesystem" where
  "fs_readFile disk p =
     (if CHR 0x00 \<in> set p then ReadThrows (TypeError ''ERR_INVALID_ARG_VALUE'') else disk p)"

record serverResponse =
  res_headers :: "(string \<times> string) list"
  res_status :: "nat option"
  res_body :: "string option"

definition new_response :: serverResponse where
  "new_response = \<lparr>res_headers = [], res_status = None, res_body = None\<rparr>"

definition setHeader :: "string \<Rightarrow> string \<Rightarrow> serverResponse \<Rightarrow> serverResponse" where
  "setHeader name v res = res\<lparr>res_headers := AList.update name v (res_headers res)\<rparr>"

text \<open>\<^verbatim>\<open>writeHead\<close> merges its headers into those set before, its own taking precedence.\<close>

definition writeHead ::
  "nat \<Rightarrow> (string \<times> string) list \<Rightarrow> serverResponse \<Rightarrow> serverResponse" where
  "writeHead status hdrs res =
     res\<lparr>res_status := Some status,
         res_headers := fold (\<lambda>(name, v). AList.update name v) hdrs (res_headers res)\<rparr>"

definition res_end :: "string \<Rightarrow> serverResponse \<Rightarrow> serverResponse" where
  "res_end data res = res\<lparr>res_body := Some data\<rparr>"

subsection \<open>\<^verbatim>\<open>requestHandler\<close> (lines 65 to 116)\<close>

definition contentTypes :: "(string \<times> string) list" where
  "contentTypes =
     [(''.html'', ''text/html''),
      (''.js'', ''text/javascript''),
      (''.css'', ''text/css''),
      (''.json'', ''application/json''),
      (''.png'', ''image/png''),
      (''.jpg'', ''image/jpg''),
      (''.gif'', ''image/gif''),
      (''.svg'', ''image/svg+xml''),
      (''.wav'', ''audio/wav''),
      (''.mp3'', ''audio/mpeg''),
      (''.mp4'', ''video/mp4''),
      (''.woff'', ''font/woff''),
      (''.woff2'', ''font/woff2''),
      (''.ttf'', ''font/ttf'')]"

text \<open>
  \<^verbatim>\<open>contentTypes[ext] || 'application/octet-stream'\<close>. An extension is empty or starts
  with a dot, so the lookup never reaches a property of \<^verbatim>\<open>Object.prototype\<close>.
\<close>

definition contentType :: "string \<Rightarrow> string" where
  "contentType ext =
     (case map_of contentTypes ext of
        Some t \<Rightarrow> t
      | None \<Rightarrow> ''application/octet-stream'')"

text \<open>
  Lines 75 to 83: the file the request names. \<^verbatim>\<open>Inl\<close> is the exception that \<^verbatim>\<open>url.parse\<close>
  or \<^verbatim>\<open>decodeURIComponent\<close> throws; nothing in the handler catches it.
\<close>

definition filePath :: "url_parser \<Rightarrow> string \<Rightarrow> request \<Rightarrow> js_error + string" where
  "filePath general root req =
     (case url_parse_pathname general (url req) of
        Inl e \<Rightarrow> Inl e
      | Inr parsed \<Rightarrow>
          (case decodeURIComponent (js_ToString parsed) of
             Inl e \<Rightarrow> Inl e
           | Inr pathname \<Rightarrow>
               Inr (path_join
                      [root,
                       if endsWith pathname ''/'' then pathname @ ''index.html''
                       else pathname])))"

datatype handler_result = Responded serverResponse | Threw js_error

text \<open>
  The handler of a server started for \<open>root\<close>. \<open>general\<close> is the general parser of
  \<^verbatim>\<open>url.parse\<close> and \<open>fs\<close> is \<^verbatim>\<open>fs.readFile\<close>.
\<close>

definition requestHandler ::
  "url_parser \<Rightarrow> string \<Rightarrow> filesystem \<Rightarrow> request \<Rightarrow> handler_result" where
  "requestHandler general root fs req =
     (let res = setHeader ''Surrogate-Control'' ''no-store'' new_response;
          res = setHeader ''Cache-Control''
                  ''no-store, no-cache, must-revalidate, proxy-revalidate'' res;
          res = setHeader ''Expires'' ''0'' res
      in case filePath general root req of
           Inl e \<Rightarrow> Threw e
         | Inr file \<Rightarrow>
             (case fs file of
                ReadThrows e \<Rightarrow> Threw e
              | ReadFails err \<Rightarrow> Responded (res_end ''Not Found'' (writeHead 404 [] res))
              | ReadData data \<Rightarrow>
                  (let ext = path_extname file in
                   Responded
                     (res_end data
                        (writeHead 200 [(''Content-Type'', contentType ext)] res)))))"

subsection \<open>The servers and the registry\<close>

text \<open>
  \<^verbatim>\<open>httpsConfiguration\<close> is what \<^verbatim>\<open>./Utils/DevServerHttpsConfiguration.js\<close> exports; the
  module hands it to \<^verbatim>\<open>https.createServer\<close> as it is. It is an argument of the model.
\<close>

record tls_config =
  cert :: string
  key :: string

text \<open>
  \<^verbatim>\<open>serverParams\<close> as line 32 builds it. Its \<^verbatim>\<open>middleware\<close> field holds a function that
  no line of the module calls (the handler sets the same headers itself); it is left out.
\<close>

record serverParams =
  port :: nat
  root :: string
  "open" :: bool
  wait :: nat
  https :: "tls_config option"
  watch :: "string list"

text \<open>
  An \<^verbatim>\<open>http.Server\<close> object of the runtime. \<^verbatim>\<open>listening\<close> is its own property.
  \<^verbatim>\<open>served_root\<close> is the \<^verbatim>\<open>root\<close> its request handler closes over, \<^verbatim>\<open>bound_port\<close> the port
  it was asked to listen on, \<^verbatim>\<open>for_window\<close> the window id \<^verbatim>\<open>serveFolder\<close> created it for.
  Objects live in a store; a handle is an index into it.
\<close>

record 'w http_server =
  listening :: bool
  served_root :: string
  bound_port :: nat
  for_window :: 'w

text \<open>The values of the \<^verbatim>\<open>Map\<close>: \<^verbatim>\<open>{ serverParams, httpServer }\<close>.\<close>

record server_entry =
  serverParams :: serverParams
  httpServer :: nat

text \<open>
  \<^verbatim>\<open>serversByWindow\<close> is a JavaScript \<^verbatim>\<open>Map\<close>: an association list in insertion order,
  read with \<^const>\<open>map_of\<close>, written with \<^const>\<open>AList.update\<close> (\<^verbatim>\<open>set\<close>) and
  \<^const>\<open>AList.delete\<close> (\<^verbatim>\<open>delete\<close>).
\<close>

record 'w state =
  serversByWindow :: "('w \<times> server_entry) list"
  servers :: "'w http_server list"

definition initial_state :: "'w state" where
  "initial_state = \<lparr>serversByWindow = [], servers = []\<rparr>"

text \<open>
  A call is modelled together with the callbacks that the answers of the world let run.
  A callback that the world leaves pending is not run by the call: it is a function of
  its own (\<open>closeCallback\<close>), to be applied to the state of the moment when it runs.

  What a call does besides changing the state, in order: the calls it makes to the
  runtime, the calls of the caller's \<^verbatim>\<open>onDone\<close>, an exception it throws to its caller
  (\<^verbatim>\<open>Throws\<close>), and an error that nothing handles: an \<^verbatim>\<open>'error'\<close> event without a
  listener, or the rejection of a promise without a handler (\<^verbatim>\<open>Uncaught\<close>).
\<close>

datatype event =
    Close nat
  | CloseAllConnections nat
  | ConsoleWarn js_error
  | GetAvailablePort nat nat
  | CreateServer nat
  | Listen nat nat
  | OnDone "js_error option" "serverParams option"
  | Throws js_error
  | Uncaught js_error

definition is_listening :: "'w state \<Rightarrow> nat \<Rightarrow> bool" where
  "is_listening s h = (h < length (servers s) \<and> listening (servers s ! h))"

definition set_listening :: "nat \<Rightarrow> bool \<Rightarrow> 'w state \<Rightarrow> 'w state" where
  "set_listening h b s =
     (if h < length (servers s)
      then s\<lparr>servers := (servers s)[h := (servers s ! h)\<lparr>listening := b\<rparr>]\<rparr>
      else s)"

subsection \<open>\<^verbatim>\<open>serveFolder\<close> (lines 13 to 134)\<close>

text \<open>
  What the world answers during one call: whether \<^verbatim>\<open>close()\<close> on the window's previous
  server throws, what the promise of \<^verbatim>\<open>getAvailablePort(2929, 4000)\<close> settles to,
  whether \<^verbatim>\<open>https.createServer\<close> rejects the certificate material, and whether binding
  the port fails.
\<close>

record serve_env =
  close_throws :: "js_error option"
  available_port :: "js_error + nat"
  tls_error :: "js_error option"
  bind_error :: "js_error option"

text \<open>Lines 22 to 28: \<^verbatim>\<open>try { existingServer.httpServer.close() } catch (e) { console.warn }\<close>.\<close>

definition closeExisting ::
  "js_error option \<Rightarrow> nat \<Rightarrow> 'w state \<Rightarrow> 'w state \<times> event list" where
  "closeExisting throws h s =
     (case throws of
        Some e \<Rightarrow> (s, [Close h, ConsoleWarn e])
      | None \<Rightarrow> (set_listening h False s, [Close h]))"

text \<open>Lines 122 to 130: the function handed to \<^verbatim>\<open>httpServer.listen\<close>.\<close>

definition listenCallback ::
  "'w \<Rightarrow> serverParams \<Rightarrow> nat \<Rightarrow> js_error option \<Rightarrow> 'w state \<Rightarrow> 'w state \<times> event list" where
  "listenCallback windowId params h err s =
     (case err of
        Some e \<Rightarrow> (s, [OnDone (Some e) None])
      | None \<Rightarrow>
          (s\<lparr>serversByWindow :=
               AList.update windowId \<lparr>serverParams = params, httpServer = h\<rparr>
                 (serversByWindow s)\<rparr>,
           [OnDone None (Some params)]))"

text \<open>
  \<^verbatim>\<open>server.listen(port, callback)\<close> of Node.js registers \<^verbatim>\<open>callback\<close> as a listener of the
  \<^verbatim>\<open>'listening'\<close> event, which is emitted without arguments once the port is bound. When
  binding fails the server emits \<^verbatim>\<open>'error'\<close> instead; the callback is not called. The
  module never registers an \<^verbatim>\<open>'error'\<close> listener on the server, so the error is
  uncaught.
\<close>

definition httpServer_listen ::
  "nat \<Rightarrow> nat \<Rightarrow> (js_error option \<Rightarrow> 'w state \<Rightarrow> 'w state \<times> event list)
     \<Rightarrow> js_error option \<Rightarrow> 'w state \<Rightarrow> 'w state \<times> event list" where
  "httpServer_listen h p callback bind s =
     (case bind of
        None \<Rightarrow>
          (let (s', tr) = callback None (set_listening h True s) in (s', Listen h p # tr))
      | Some e \<Rightarrow> (s, [Listen h p, Uncaught e]))"

text \<open>
  Lines 31 to 131: the fulfilment handler of the port promise. An exception thrown in
  it (by \<^verbatim>\<open>https.createServer\<close>, when the certificate material is refused) rejects the
  promise that \<^verbatim>\<open>then\<close> returns, which nothing handles. \<^verbatim>\<open>http.createServer\<close> does not
  throw.
\<close>

definition onPortAvailable ::
  "tls_config \<Rightarrow> string \<Rightarrow> bool \<Rightarrow> 'w \<Rightarrow> serve_env \<Rightarrow> nat \<Rightarrow> 'w state
     \<Rightarrow> 'w state \<times> event list" where
  "onPortAvailable httpsConfiguration root' useHttps windowId env p s =
     (let params =
            \<lparr>port = p, root = root', open = False, wait = 1000,
             https = (if useHttps then Some httpsConfiguration else None), watch = []\<rparr>
      in case (if https params \<noteq> None then tls_error env else None) of
           Some e \<Rightarrow> (s, [Uncaught e])
         | None \<Rightarrow>
             (let h = length (servers s);
                  s1 = s\<lparr>servers := servers s @
                          [\<lparr>listening = False, served_root = root', bound_port = p,
                            for_window = windowId\<rparr>]\<rparr>;
                  (s2, tr) = httpServer_listen h p (listenCallback windowId params h)
                               (bind_error env) s1
              in (s2, CreateServer h # tr)))"

definition serveFolder ::
  "tls_config \<Rightarrow> string \<Rightarrow> bool \<Rightarrow> 'w \<Rightarrow> serve_env \<Rightarrow> 'w state \<Rightarrow> 'w state \<times> event list" where
  "serveFolder httpsConfiguration root' useHttps windowId env s =
     (let existingServer = map_of (serversByWindow s) windowId in
      if (case existingServer of
            Some e \<Rightarrow> root (serverParams e) = root'
          | None \<Rightarrow> False)
      then (s, [OnDone None (map_option serverParams existingServer)])
      else
        (let (s1, tr1) =
               (case existingServer of
                  Some e \<Rightarrow> closeExisting (close_throws env) (httpServer e) s
                | None \<Rightarrow> (s, []));
             (s2, tr2) =
               (case available_port env of
                  Inr p \<Rightarrow>
                    onPortAvailable httpsConfiguration root' useHttps windowId env p s1
                | Inl err \<Rightarrow> (s1, [OnDone (Some err) None]))
         in (s2, tr1 @ GetAvailablePort 2929 4000 # tr2)))"

subsection \<open>\<^verbatim>\<open>stopServer\<close> (lines 139 to 150)\<close>

text \<open>
  \<^verbatim>\<open>server.close(callback)\<close>: the call may throw; otherwise the server stops listening at
  once and the callback is called when the close has completed, with the error of the
  close if it had one. While connections stay open the close has not completed
  (\<^verbatim>\<open>ClosePending\<close>): \<^verbatim>\<open>stopServer\<close> returns, and the callback runs later, after whatever
  the module has been asked to do in between.
\<close>

datatype close_outcome = CloseThrows js_error | CloseCompletes "js_error option" | ClosePending

text \<open>Lines 142 to 145: the function handed to \<^verbatim>\<open>close\<close>.\<close>

definition closeCallback ::
  "'w \<Rightarrow> js_error option \<Rightarrow> 'w state \<Rightarrow> 'w state \<times> event list" where
  "closeCallback windowId err s =
     (s\<lparr>serversByWindow := AList.delete windowId (serversByWindow s)\<rparr>, [OnDone err None])"

definition stopServer :: "'w \<Rightarrow> close_outcome \<Rightarrow> 'w state \<Rightarrow> 'w state \<times> event list" where
  "stopServer windowId closing s =
     (case map_of (serversByWindow s) windowId of
        Some server \<Rightarrow>
          (case closing of
             CloseThrows e \<Rightarrow> (s, [Close (httpServer server), Throws e])
           | ClosePending \<Rightarrow>
               (set_listening (httpServer server) False s, [Close (httpServer server)])
           | CloseCompletes err \<Rightarrow>
               (let (s', tr) =
                      closeCallback windowId err (set_listening (httpServer server) False s)
                in (s', Close (httpServer server) # tr)))
      | None \<Rightarrow>
          (s\<lparr>serversByWindow := AList.delete windowId (serversByWindow s)\<rparr>,
           [OnDone None None]))"

subsection \<open>\<^verbatim>\<open>stopAllServers\<close> (lines 155 to 174)\<close>

text \<open>
  Whether the runtime has \<^verbatim>\<open>closeAllConnections\<close> (Node 18.2 and later), and whether
  \<^verbatim>\<open>closeAllConnections()\<close> and \<^verbatim>\<open>close()\<close> throw on a given server.
\<close>

record shutdown_env =
  has_closeAllConnections :: bool
  closeAllConnections_throws :: "nat \<Rightarrow> js_error option"
  close_throws_on :: "nat \<Rightarrow> js_error option"

text \<open>
  Lines 157 to 171, the body of the \<^verbatim>\<open>forEach\<close>. An exception leaves the \<^verbatim>\<open>try\<close> block
  where it is thrown and the empty \<^verbatim>\<open>catch\<close> ends the iteration.
\<close>

definition stopOne ::
  "shutdown_env \<Rightarrow> server_entry \<Rightarrow> 'w state \<times> event list \<Rightarrow> 'w state \<times> event list" where
  "stopOne env server acc =
     (let (s, tr) = acc; h = httpServer server in
      if is_listening s h then
        (let tr1 = tr @ (if has_closeAllConnections env then [CloseAllConnections h] else [])
         in case (if has_closeAllConnections env then closeAllConnections_throws env h
                  else None) of
              Some e \<Rightarrow> (s, tr1)
            | None \<Rightarrow>
                (case close_throws_on env h of
                   Some e \<Rightarrow> (s, tr1 @ [Close h])
                 | None \<Rightarrow> (set_listening h False s, tr1 @ [Close h])))
      else (s, tr))"

text \<open>Lines 156 to 172: the \<^verbatim>\<open>forEach\<close> over the entries, in insertion order.\<close>

definition stopEach ::
  "shutdown_env \<Rightarrow> ('w \<times> server_entry) list \<Rightarrow> 'w state \<times> event list
     \<Rightarrow> 'w state \<times> event list" where
  "stopEach env entries acc = fold (\<lambda>(windowId, server). stopOne env server) entries acc"

definition stopAllServers :: "shutdown_env \<Rightarrow> 'w state \<Rightarrow> 'w state \<times> event list" where
  "stopAllServers env s =
     (let (s1, tr) = stopEach env (serversByWindow s) (s, [])
      in (s1\<lparr>serversByWindow := []\<rparr>, tr))"

subsection \<open>Notions the properties are stated with\<close>

text \<open>
  One caller that calls \<^verbatim>\<open>serveFolder\<close> again and again for the same window and the same
  root, each call after the one before has completed, with any \<^verbatim>\<open>useHttps\<close> and any
  answers of the world. The result lists what each call did.
\<close>

fun serveFolder_repeatedly ::
  "tls_config \<Rightarrow> string \<Rightarrow> 'w \<Rightarrow> (bool \<times> serve_env) list \<Rightarrow> 'w state
     \<Rightarrow> 'w state \<times> event list list" where
  "serveFolder_repeatedly httpsConfiguration root' windowId [] s = (s, [])"
| "serveFolder_repeatedly httpsConfiguration root' windowId ((useHttps, env) # calls) s =
     (let (s1, tr) = serveFolder httpsConfiguration root' useHttps windowId env s;
          (s2, trs) = serveFolder_repeatedly httpsConfiguration root' windowId calls s1
      in (s2, tr # trs))"

text \<open>The servers created for a window that are listening.\<close>

definition live_listeners :: "'w state \<Rightarrow> 'w \<Rightarrow> nat list" where
  "live_listeners s windowId =
     filter (\<lambda>h. listening (servers s ! h) \<and> for_window (servers s ! h) = windowId)
       [0..<length (servers s)]"

text \<open>
  The invariant of the registry: no window has two live listeners, and the record of a
  window names the one live listener of that window, whose handler serves the record's
  root.
\<close>

definition registry_invariant :: "'w state \<Rightarrow> bool" where
  "registry_invariant s =
     (list_all (\<lambda>windowId. length (live_listeners s windowId) \<le> 1)
        (map for_window (servers s))
      \<and> list_all
          (\<lambda>(windowId, e).
             live_listeners s windowId = [httpServer e]
             \<and> root (serverParams e) = served_root (servers s ! httpServer e))
          (serversByWindow s))"

text \<open>A file lies inside a directory when the directory's segments start its own.\<close>

definition path_segments :: "string \<Rightarrow> string list" where
  "path_segments p = filter (\<lambda>seg. seg \<noteq> []) (split_slash p)"

definition inside_root :: "string \<Rightarrow> string \<Rightarrow> bool" where
  "inside_root dir p = prefix (path_segments (path_normalize dir)) (path_segments p)"

text \<open>
  A plain segment is the name of a file or a directory. A name is safe in a URL when
  \<^verbatim>\<open>url.parse\<close> and \<^verbatim>\<open>decodeURIComponent\<close> leave it as it is: visible ASCII characters,
  none of them a backslash, \<^verbatim>\<open>%\<close>, \<^verbatim>\<open>?\<close>, \<^verbatim>\<open>#\<close> or \<^verbatim>\<open>@\<close>.
\<close>

definition plain_segment :: "string \<Rightarrow> bool" where
  "plain_segment seg =
     (seg \<noteq> [] \<and> CHR ''/'' \<notin> set seg \<and> seg \<noteq> ''.'' \<and> seg \<noteq> ''..'')"

definition url_safe :: "string \<Rightarrow> bool" where
  "url_safe s =
     list_all (\<lambda>c. visible_ascii c \<and> c \<noteq> CHR 0x5C \<and> c \<noteq> CHR ''%'' \<and> c \<noteq> CHR ''?''
                    \<and> c \<noteq> CHR ''#'' \<and> c \<noteq> CHR ''@'') s"

text \<open>
  Every listening server is the one that the record of its window names. From this, the
  window has no other live listener.
\<close>

definition registered_listeners :: "'w state \<Rightarrow> bool" where
  "registered_listeners s =
     (\<forall>h < length (servers s).
        listening (servers s ! h) \<longrightarrow>
          (\<exists>e. map_of (serversByWindow s) (for_window (servers s ! h)) = Some e
               \<and> httpServer e = h))"

text \<open>No server created for the window is listening.\<close>

definition no_live_listener :: "'w state \<Rightarrow> 'w \<Rightarrow> bool" where
  "no_live_listener s w =
     (\<forall>h < length (servers s). listening (servers s ! h) \<longrightarrow> for_window (servers s ! h) \<noteq> w)"

subsection \<open>A scenario\<close>

text \<open>
  Window \<^verbatim>\<open>w1\<close> previews \<^verbatim>\<open>/tmp/site\<close> on port 2929 (\<open>example_state\<close>). Its next
  \<^verbatim>\<open>serveFolder\<close>, for another root, finds no free port (\<open>stale_state\<close>). Then window
  \<^verbatim>\<open>w2\<close> previews \<^verbatim>\<open>/tmp/game\<close> on port 2930 (\<open>mixed_state\<close>).

  While the close that a \<^verbatim>\<open>stopServer\<close> for \<^verbatim>\<open>w1\<close> has started is pending, the state is
  \<open>stale_state\<close> as well. \<open>after_late_close\<close> is the state when \<^verbatim>\<open>w1\<close> has then
  started a preview of \<^verbatim>\<open>/tmp/other\<close> on port 2930 and the close callback has run after
  that.

  The request targets of the scenario are simple paths, but for \<^verbatim>\<open>/a#b\<close>, whose
  pathname is \<^verbatim>\<open>/a\<close>. The general parser of the scenario is asked for no other target.
\<close>

definition example_config :: tls_config where
  "example_config = \<lparr>cert = ''cert.pem'', key = ''key.pem''\<rparr>"

definition port_free :: "nat \<Rightarrow> serve_env" where
  "port_free p =
     \<lparr>close_throws = None, available_port = Inr p, tls_error = None, bind_error = None\<rparr>"

definition no_port :: serve_env where
  "no_port =
     \<lparr>close_throws = None, available_port = Inl (SystemError ''NoPortAvailable''),
      tls_error = None, bind_error = None\<rparr>"

definition site_params :: serverParams where
  "site_params =
     \<lparr>port = 2929, root = ''/tmp/site'', open = False, wait = 1000, https = None,
      watch = []\<rparr>"

definition game_params :: serverParams where
  "game_params =
     \<lparr>port = 2930, root = ''/tmp/game'', open = False, wait = 1000, https = None,
      watch = []\<rparr>"

definition example_state :: "string state" where
  "example_state =
     \<lparr>serversByWindow = [(''w1'', \<lparr>serverParams = site_params, httpServer = 0\<rparr>)],
      servers =
        [\<lparr>listening = True, served_root = ''/tmp/site'', bound_port = 2929,
          for_window = ''w1''\<rparr>]\<rparr>"

definition stale_state :: "string state" where
  "stale_state =
     \<lparr>serversByWindow = [(''w1'', \<lparr>serverParams = site_params, httpServer = 0\<rparr>)],
      servers =
        [\<lparr>listening = False, served_root = ''/tmp/site'', bound_port = 2929,
          for_window = ''w1''\<rparr>]\<rparr>"

definition mixed_state :: "string state" where
  "mixed_state =
     \<lparr>serversByWindow =
        [(''w1'', \<lparr>serverParams = site_params, httpServer = 0\<rparr>),
         (''w2'', \<lparr>serverParams = game_params, httpServer = 1\<rparr>)],
      servers =
        [\<lparr>listening = False, served_root = ''/tmp/site'', bound_port = 2929,
          for_window = ''w1''\<rparr>,
         \<lparr>listening = True, served_root = ''/tmp/game'', bound_port = 2930,
          for_window = ''w2''\<rparr>]\<rparr>"

definition after_late_close :: "string state" where
  "after_late_close =
     fst (closeCallback ''w1'' None
            (fst (serveFolder example_config ''/tmp/other'' False ''w1'' (port_free 2930)
                    stale_state)))"

definition example_shutdown :: shutdown_env where
  "example_shutdown =
     \<lparr>has_closeAllConnections = True, closeAllConnections_throws = (\<lambda>h. None),
      close_throws_on = (\<lambda>h. None)\<rparr>"

definition example_url_parse :: url_parser where
  "example_url_parse u = (if u = ''/a#b'' then Inr (Some ''/a'') else Inr None)"

definition example_fs :: filesystem where
  "example_fs p =
     (if p = ''/tmp/site/index.html'' then ReadData ''<html></html>''
      else if p = ''/tmp/site/Logo.PNG'' then ReadData ''PNG''
      else if p = ''/tmp/secret.txt'' then ReadData ''secret''
      else if p = ''/tmp/site/private.key'' then ReadFails (SystemError ''EACCES'')
      else ReadFails (SystemError ''ENOENT''))"

section \<open>Request handling\<close>

lemma requestHandler_cases:
  "requestHandler general dir fs req =
     (case filePath general dir req of
        Inl e \<Rightarrow> Threw e
      | Inr p \<Rightarrow>
          (case fs p of
             ReadThrows e \<Rightarrow> Threw e
           | ReadFails err \<Rightarrow>
               Responded
                 \<lparr>res_headers =
                    [(''Surrogate-Control'', ''no-store''),
                     (''Cache-Control'',
                      ''no-store, no-cache, must-revalidate, proxy-revalidate''),
                     (''Expires'', ''0'')],
                  res_status = Some 404, res_body = Some ''Not Found''\<rparr>
           | ReadData data \<Rightarrow>
               Responded
                 \<lparr>res_headers =
                    [(''Surrogate-Control'', ''no-store''),
                     (''Cache-Control'',
                      ''no-store, no-cache, must-revalidate, proxy-revalidate''),
                     (''Expires'', ''0''),
                     (''Content-Type'', contentType (path_extname p))],
                  res_status = Some 200, res_body = Some data\<rparr>))"
  by (simp add: requestHandler_def setHeader_def writeHead_def res_end_def new_response_def
      split: sum.splits read_outcome.splits)

text \<open>
  A simple path is parsed without the general parser: the file it names is the same
  whatever the general parser would answer.
\<close>

lemma url_parse_pathname_simple:
  "simple_path u
     \<Longrightarrow> url_parse_pathname general u = Inr (Some (backslashes_to_slashes (before_query u)))"
  by (simp add: url_parse_pathname_def)

lemma filePath_simple_path:
  "simple_path (url req) \<Longrightarrow> filePath general dir req = filePath general' dir req"
  by (simp add: filePath_def url_parse_pathname_def)

text \<open>The scenario's requests, evaluated.\<close>

lemma filePath_index:
  "filePath example_url_parse ''/tmp/site'' \<lparr>url = ''/''\<rparr> = Inr ''/tmp/site/index.html''"
  by code_simp

lemma filePath_missing:
  "filePath example_url_parse ''/tmp/site'' \<lparr>url = ''/missing.png''\<rparr>
     = Inr ''/tmp/site/missing.png''"
  by code_simp

lemma filePath_private:
  "filePath example_url_parse ''/tmp/site'' \<lparr>url = ''/private.key''\<rparr>
     = Inr ''/tmp/site/private.key''"
  by code_simp

lemma filePath_logo:
  "filePath example_url_parse ''/tmp/site'' \<lparr>url = ''/Logo.PNG?v=2''\<rparr>
     = Inr ''/tmp/site/Logo.PNG''"
  by code_simp

lemma simple_malformed: "simple_path ''/%''"
  by code_simp

lemma filePath_malformed: "filePath general dir \<lparr>url = ''/%''\<rparr> = Inl URIError"
  by (simp add: filePath_def url_parse_pathname_simple [OF simple_malformed]
      before_query_def backslashes_to_slashes_def decodeURIComponent_def)

lemma example_fs_index: "example_fs ''/tmp/site/index.html'' = ReadData ''<html></html>''"
  by (simp add: example_fs_def)

lemma example_fs_logo: "example_fs ''/tmp/site/Logo.PNG'' = ReadData ''PNG''"
  by (simp add: example_fs_def)

lemma example_fs_secret: "example_fs ''/tmp/secret.txt'' = ReadData ''secret''"
  by (simp add: example_fs_def)

lemma example_fs_private:
  "example_fs ''/tmp/site/private.key'' = ReadFails (SystemError ''EACCES'')"
  by (simp add: example_fs_def)

lemma example_fs_missing:
  "example_fs ''/tmp/site/missing.png'' = ReadFails (SystemError ''ENOENT'')"
  by (simp add: example_fs_def)

lemma request_missing:
  "requestHandler example_url_parse ''/tmp/site'' example_fs \<lparr>url = ''/missing.png''\<rparr>
     = Responded
         \<lparr>res_headers =
            [(''Surrogate-Control'', ''no-store''),
             (''Cache-Control'', ''no-store, no-cache, must-revalidate, proxy-revalidate''),
             (''Expires'', ''0'')],
          res_status = Some 404, res_body = Some ''Not Found''\<rparr>"
  by (simp add: requestHandler_cases filePath_missing example_fs_missing)

lemma extname_index: "path_extname ''/tmp/site/index.html'' = ''.html''"
  by code_simp

lemma extname_logo: "path_extname ''/tmp/site/Logo.PNG'' = ''.PNG''"
  by code_simp

lemma contentType_html: "contentType ''.html'' = ''text/html''"
  by (simp add: contentType_def contentTypes_def)

lemma request_index:
  "requestHandler example_url_parse ''/tmp/site'' example_fs \<lparr>url = ''/''\<rparr>
     = Responded
         \<lparr>res_headers =
            [(''Surrogate-Control'', ''no-store''),
             (''Cache-Control'', ''no-store, no-cache, must-revalidate, proxy-revalidate''),
             (''Expires'', ''0''),
             (''Content-Type'', ''text/html'')],
          res_status = Some 200, res_body = Some ''<html></html>''\<rparr>"
  by (simp add: requestHandler_cases filePath_index example_fs_index extname_index
      contentType_html)

text \<open>
  C2. Whatever the request and whatever the file system answers, a response that the
  handler of a started server sends, the 200 as well as the 404, carries
  \<^verbatim>\<open>Surrogate-Control: no-store\<close>,
  \<^verbatim>\<open>Cache-Control: no-store, no-cache, must-revalidate, proxy-revalidate\<close> and
  \<^verbatim>\<open>Expires: 0\<close>. The handler of a server is \<open>requestHandler\<close> at the root the server
  was started for; the statement holds for every root.
\<close>

theorem no_cache_headers_on_every_response:
  assumes "requestHandler general dir fs req = Responded res"
  shows "map_of (res_headers res) ''Surrogate-Control'' = Some ''no-store''
       \<and> map_of (res_headers res) ''Cache-Control''
           = Some ''no-store, no-cache, must-revalidate, proxy-revalidate''
       \<and> map_of (res_headers res) ''Expires'' = Some ''0''
       \<and> (res_status res = Some 200 \<or> res_status res = Some 404)"
  using assms
  by (auto simp: requestHandler_cases split: sum.splits read_outcome.splits)

theorem no_cache_headers_on_every_response_witness:
  "requestHandler example_url_parse ''/tmp/site'' example_fs \<lparr>url = ''/missing.png''\<rparr>
     = Responded
         \<lparr>res_headers =
            [(''Surrogate-Control'', ''no-store''),
             (''Cache-Control'', ''no-store, no-cache, must-revalidate, proxy-revalidate''),
             (''Expires'', ''0'')],
          res_status = Some 404, res_body = Some ''Not Found''\<rparr>
   \<and> requestHandler example_url_parse ''/tmp/site'' example_fs \<lparr>url = ''/''\<rparr>
     = Responded
         \<lparr>res_headers =
            [(''Surrogate-Control'', ''no-store''),
             (''Cache-Control'', ''no-store, no-cache, must-revalidate, proxy-revalidate''),
             (''Expires'', ''0''),
             (''Content-Type'', ''text/html'')],
          res_status = Some 200, res_body = Some ''<html></html>''\<rparr>"
  using no_cache_headers_on_every_response [OF request_missing]
    no_cache_headers_on_every_response [OF request_index] request_missing request_index
  by simp

text \<open>
  An error that \<^verbatim>\<open>readFile\<close> reports to its callback (lines 85 to 90) is answered with a
  404 and the body \<^verbatim>\<open>Not Found\<close>, the same for every error. No other response has a
  status that is not 200.
\<close>

theorem read_failure_is_404:
  "(filePath general dir req = Inr p \<and> fs p = ReadFails err \<longrightarrow>
      requestHandler general dir fs req
        = Responded
            \<lparr>res_headers =
               [(''Surrogate-Control'', ''no-store''),
                (''Cache-Control'', ''no-store, no-cache, must-revalidate, proxy-revalidate''),
                (''Expires'', ''0'')],
             res_status = Some 404, res_body = Some ''Not Found''\<rparr>)
   \<and> (requestHandler general dir fs req = Responded res \<and> res_status res \<noteq> Some 200 \<longrightarrow>
        res_status res = Some 404 \<and> res_body res = Some ''Not Found''
        \<and> (\<exists>p' err'. filePath general dir req = Inr p' \<and> fs p' = ReadFails err'))"
  by (auto simp: requestHandler_cases split: sum.splits read_outcome.splits)

theorem read_failure_is_404_witness:
  "filePath example_url_parse ''/tmp/site'' \<lparr>url = ''/private.key''\<rparr> = Inr ''/tmp/site/private.key''
   \<and> example_fs ''/tmp/site/private.key'' = ReadFails (SystemError ''EACCES'')
   \<and> requestHandler example_url_parse ''/tmp/site'' example_fs \<lparr>url = ''/private.key''\<rparr>
        = Responded
            \<lparr>res_headers =
               [(''Surrogate-Control'', ''no-store''),
                (''Cache-Control'', ''no-store, no-cache, must-revalidate, proxy-revalidate''),
                (''Expires'', ''0'')],
             res_status = Some 404, res_body = Some ''Not Found''\<rparr>
   \<and> filePath example_url_parse ''/tmp/site'' \<lparr>url = ''/missing.png''\<rparr> = Inr ''/tmp/site/missing.png''
   \<and> example_fs ''/tmp/site/missing.png'' = ReadFails (SystemError ''ENOENT'')
   \<and> requestHandler example_url_parse ''/tmp/site'' example_fs \<lparr>url = ''/missing.png''\<rparr>
        = requestHandler example_url_parse ''/tmp/site'' example_fs \<lparr>url = ''/private.key''\<rparr>"
proof -
  note denied =
    read_failure_is_404 [where fs = example_fs, THEN conjunct1, rule_format,
      OF conjI [OF filePath_private example_fs_private]]
  note missing =
    read_failure_is_404 [where fs = example_fs, THEN conjunct1, rule_format,
      OF conjI [OF filePath_missing example_fs_missing]]
  show ?thesis
    by (intro conjI filePath_private example_fs_private filePath_missing example_fs_missing
        denied trans [OF missing denied [symmetric]])
qed

lemma contentType_unlisted:
  "ext \<notin> set (map fst contentTypes) \<Longrightarrow> contentType ext = ''application/octet-stream''"
proof -
  assume "ext \<notin> set (map fst contentTypes)"
  then have "map_of contentTypes ext = None"
    by (simp add: map_of_eq_None_iff)
  then show ?thesis
    by (simp add: contentType_def)
qed

lemma PNG_unlisted: "''.PNG'' \<notin> set (map fst contentTypes)"
  by (simp add: contentTypes_def)

text \<open>
  C10. The extension, with its dot, is looked up in the table as it is written. A file
  that was read and whose extension is not a key of the table, as \<^verbatim>\<open>.HTML\<close> and
  \<^verbatim>\<open>.Png\<close> are not, is sent as \<^verbatim>\<open>application/octet-stream\<close>.
\<close>

theorem content_type_lookup_is_case_sensitive:
  "(filePath general dir req = Inr p \<and> fs p = ReadData data
      \<and> path_extname p \<notin> set (map fst contentTypes) \<longrightarrow>
      requestHandler general dir fs req
        = Responded
            \<lparr>res_headers =
               [(''Surrogate-Control'', ''no-store''),
                (''Cache-Control'', ''no-store, no-cache, must-revalidate, proxy-revalidate''),
                (''Expires'', ''0''),
                (''Content-Type'', ''application/octet-stream'')],
             res_status = Some 200, res_body = Some data\<rparr>)
   \<and> contentType ''.HTML'' = ''application/octet-stream''
   \<and> contentType ''.Png'' = ''application/octet-stream''
   \<and> contentType ''.html'' = ''text/html''
   \<and> contentType ''.png'' = ''image/png''"
proof -
  have "contentType ''.HTML'' = ''application/octet-stream''"
    and "contentType ''.Png'' = ''application/octet-stream''"
    and "contentType ''.html'' = ''text/html''"
    and "contentType ''.png'' = ''image/png''"
    by (simp_all add: contentType_def contentTypes_def)
  then show ?thesis
    by (auto simp: requestHandler_cases contentType_unlisted)
qed

theorem content_type_lookup_is_case_sensitive_witness:
  "filePath example_url_parse ''/tmp/site'' \<lparr>url = ''/Logo.PNG?v=2''\<rparr> = Inr ''/tmp/site/Logo.PNG''
   \<and> example_fs ''/tmp/site/Logo.PNG'' = ReadData ''PNG''
   \<and> path_extname ''/tmp/site/Logo.PNG'' \<notin> set (map fst contentTypes)
   \<and> requestHandler example_url_parse ''/tmp/site'' example_fs \<lparr>url = ''/Logo.PNG?v=2''\<rparr>
        = Responded
            \<lparr>res_headers =
               [(''Surrogate-Control'', ''no-store''),
                (''Cache-Control'', ''no-store, no-cache, must-revalidate, proxy-revalidate''),
                (''Expires'', ''0''),
                (''Content-Type'', ''application/octet-stream'')],
             res_status = Some 200, res_body = Some ''PNG''\<rparr>"
proof -
  have ext: "path_extname ''/tmp/site/Logo.PNG'' \<notin> set (map fst contentTypes)"
    by (simp only: extname_logo PNG_unlisted not_False_eq_True)
  note served =
    content_type_lookup_is_case_sensitive [where fs = example_fs, THEN conjunct1, rule_format,
      OF conjI [OF filePath_logo conjI [OF example_fs_logo ext]]]
  show ?thesis
    by (intro conjI filePath_logo example_fs_logo ext served)
qed

text \<open>
  C3. The request \<^verbatim>\<open>GET /%\<close>: its path is a malformed percent escape, so
  \<^verbatim>\<open>decodeURIComponent\<close> at line 76 throws \<^verbatim>\<open>URIError\<close>. The handler has no \<^verbatim>\<open>try\<close>
  around it: for every root and every file system the exception leaves the handler, and
  no response, not even a 404, is sent.
\<close>

theorem malformed_escape_leaves_the_handler:
  "requestHandler general dir fs \<lparr>url = ''/%''\<rparr> = Threw URIError"
  by (simp add: requestHandler_cases filePath_malformed)

lemma segments_site: "path_segments (path_normalize ''/tmp/site'') = [''tmp'', ''site'']"
  by code_simp

lemma segments_secret: "path_segments ''/tmp/secret.txt'' = [''tmp'', ''secret.txt'']"
  by code_simp

lemma secret_outside: "\<not> inside_root ''/tmp/site'' ''/tmp/secret.txt''"
  by (simp add: inside_root_def segments_site segments_secret)

lemma extname_secret: "path_extname ''/tmp/secret.txt'' = ''.txt''"
  by code_simp

lemma contentType_txt: "contentType ''.txt'' = ''application/octet-stream''"
  by (simp add: contentType_def contentTypes_def)

lemma simple_slash: "simple_path ''/''"
  by code_simp

lemma decode_slash:
  "decodeURIComponent (backslashes_to_slashes (before_query (url \<lparr>url = ''/''\<rparr>))) = Inr ''/''"
  by code_simp

lemma join_index: "path_join [''/tmp/site'', ''/index.html''] = ''/tmp/site/index.html''"
  by code_simp

lemma not_simple_fragment: "\<not> simple_path ''/a#b''"
  by code_simp

lemma example_url_parse_fragment: "example_url_parse ''/a#b'' = Inr (Some ''/a'')"
  by (simp add: example_url_parse_def)

lemma decode_fragment: "decodeURIComponent (js_ToString (Some ''/a'')) = Inr ''/a''"
  by code_simp

lemma join_fragment: "path_join [''/tmp/site'', ''/a''] = ''/tmp/site/a''"
  by code_simp

text \<open>
  \<^verbatim>\<open>GET /../secret.txt\<close> on a server for \<^verbatim>\<open>/tmp/site\<close>, the same with its dots and slash
  percent encoded and a query, and the same with a backslash for its second slash.
\<close>

lemma simple_traversal: "simple_path ''/../secret.txt''"
  by code_simp

lemma simple_encoded_traversal: "simple_path ''/%2e%2e%2fsecret.txt?v=1''"
  by code_simp

lemma simple_backslash_traversal: "simple_path (''/..'' @ CHR 0x5C # ''secret.txt'')"
  by code_simp

lemma filePath_traversal_example:
  "filePath example_url_parse ''/tmp/site'' \<lparr>url = ''/../secret.txt''\<rparr> = Inr ''/tmp/secret.txt''"
  by code_simp

lemma filePath_encoded_traversal_example:
  "filePath example_url_parse ''/tmp/site'' \<lparr>url = ''/%2e%2e%2fsecret.txt?v=1''\<rparr>
     = Inr ''/tmp/secret.txt''"
  by code_simp

lemma filePath_backslash_traversal_example:
  "filePath example_url_parse ''/tmp/site'' \<lparr>url = ''/..'' @ CHR 0x5C # ''secret.txt''\<rparr>
     = Inr ''/tmp/secret.txt''"
  by code_simp

lemma filePath_traversal:
  "filePath general ''/tmp/site'' \<lparr>url = ''/../secret.txt''\<rparr> = Inr ''/tmp/secret.txt''"
  using filePath_simple_path [of "\<lparr>url = ''/../secret.txt''\<rparr>" general "''/tmp/site''"
      example_url_parse]
  by (simp add: simple_traversal filePath_traversal_example)

lemma filePath_encoded_traversal:
  "filePath general ''/tmp/site'' \<lparr>url = ''/%2e%2e%2fsecret.txt?v=1''\<rparr>
     = Inr ''/tmp/secret.txt''"
  using filePath_simple_path [of "\<lparr>url = ''/%2e%2e%2fsecret.txt?v=1''\<rparr>" general
      "''/tmp/site''" example_url_parse]
  by (simp add: simple_encoded_traversal filePath_encoded_traversal_example)

lemma filePath_backslash_traversal:
  "filePath general ''/tmp/site'' \<lparr>url = ''/..'' @ CHR 0x5C # ''secret.txt''\<rparr>
     = Inr ''/tmp/secret.txt''"
  using filePath_simple_path [of "\<lparr>url = ''/..'' @ CHR 0x5C # ''secret.txt''\<rparr>" general
      "''/tmp/site''" example_url_parse]
  by (simp only: request.simps simple_backslash_traversal
      filePath_backslash_traversal_example)

text \<open>Targets that \<^verbatim>\<open>url.parse\<close> does not read as a simple path.\<close>

lemma not_simple_path_examples:
  "\<not> simple_path ''http://host/x''"
  "\<not> simple_path ''//user@host/x''"
  "\<not> simple_path ''///x''"
  "\<not> simple_path ''/a b''"
  by code_simp+

text \<open>
  Roots in general. \<^verbatim>\<open>split\<close> and \<^verbatim>\<open>join\<close> are inverse on segments without a slash,
  \<^verbatim>\<open>normalizeString\<close> keeps plain segments, and a name that is safe in a URL passes
  \<^verbatim>\<open>url.parse\<close> and \<^verbatim>\<open>decodeURIComponent\<close> unchanged.
\<close>

lemma split_slash_nonempty: "split_slash xs \<noteq> []"
  by (induction xs) (auto split: list.splits)

lemma split_slash_append:
  "split_slash (a @ CHR ''/'' # b) = split_slash a @ split_slash b"
proof (induction a)
  case Nil
  then show ?case by simp
next
  case (Cons c a)
  then show ?case
    using split_slash_nonempty [of a]
    by (cases "split_slash a") auto
qed

lemma split_slash_plain: "CHR ''/'' \<notin> set seg \<Longrightarrow> split_slash seg = [seg]"
  by (induction seg) auto

lemma split_join_slash:
  "segs \<noteq> [] \<Longrightarrow> \<forall>seg \<in> set segs. CHR ''/'' \<notin> set seg
     \<Longrightarrow> split_slash (join_slash segs) = segs"
proof (induction segs rule: join_slash.induct)
  case 1
  then show ?case by simp
next
  case (2 seg)
  then show ?case by (simp add: split_slash_plain)
next
  case (3 seg v va)
  then show ?case
    by (simp add: split_slash_append split_slash_plain)
qed

lemma normalizeString_append:
  "normalizeString allow res (xs @ ys)
     = normalizeString allow (normalizeString allow res xs) ys"
  by (induction xs arbitrary: res) auto

lemma normalizeString_plain:
  "\<forall>seg \<in> set segs. plain_segment seg \<Longrightarrow> normalizeString allow res segs = res @ segs"
  by (induction segs arbitrary: res) (auto simp: plain_segment_def)

lemma join_slash_last:
  "segs \<noteq> [] \<Longrightarrow> last segs \<noteq> [] \<Longrightarrow> join_slash segs \<noteq> []
     \<and> last (join_slash segs) = last (last segs)"
  by (induction segs rule: join_slash.induct) auto

lemma percent_tokens_plain: "CHR ''%'' \<notin> set s \<Longrightarrow> percent_tokens s = Some (map Lit s)"
  by (induction s) auto

lemma utf8_decode_Lit: "utf8_decode (map Lit s) = Some s"
  by (induction s) auto

lemma decodeURIComponent_plain: "CHR ''%'' \<notin> set s \<Longrightarrow> decodeURIComponent s = Inr s"
  by (simp add: decodeURIComponent_def percent_tokens_plain utf8_decode_Lit)

lemma url_safe_chars:
  assumes "url_safe name" and "c \<in> set name"
  shows "visible_ascii c" and "c \<noteq> CHR 0x5C" and "c \<noteq> CHR ''%''" and "c \<noteq> CHR ''?''"
    and "c \<noteq> CHR ''#''" and "c \<noteq> CHR ''@''"
  using assms by (auto simp: url_safe_def list_all_iff)

lemma before_query_plain: "CHR ''?'' \<notin> set s \<Longrightarrow> before_query s = s"
  by (auto simp: before_query_def takeWhile_eq_all_conv)

lemma backslashes_to_slashes_plain: "CHR 0x5C \<notin> set s \<Longrightarrow> backslashes_to_slashes s = s"
  by (auto simp: backslashes_to_slashes_def intro: map_idI)

lemma traversal_target:
  assumes "url_safe name"
  shows "simple_path (''/../'' @ name)"
    and "backslashes_to_slashes (before_query (''/../'' @ name)) = ''/../'' @ name"
    and "CHR ''%'' \<notin> set (''/../'' @ name)"
proof -
  let ?u = "''/../'' @ name"
  have query: "CHR ''?'' \<notin> set ?u" and backslash: "CHR 0x5C \<notin> set ?u"
    and percent: "CHR ''%'' \<notin> set ?u" and hash: "CHR ''#'' \<notin> set ?u"
    and at: "CHR ''@'' \<notin> set ?u"
    using url_safe_chars(2) [OF assms] url_safe_chars(3) [OF assms]
      url_safe_chars(4) [OF assms] url_safe_chars(5) [OF assms] url_safe_chars(6) [OF assms]
    by fastforce+
  have visible: "list_all visible_ascii ?u"
    using url_safe_chars(1) [OF assms] by (auto simp: list_all_iff visible_ascii_def)
  show path: "backslashes_to_slashes (before_query ?u) = ?u"
    by (simp only: before_query_plain [OF query] backslashes_to_slashes_plain [OF backslash])
  show "CHR ''%'' \<notin> set ?u"
    by (rule percent)
  show "simple_path ?u"
    unfolding simple_path_def Let_def path
    using visible hash at by simp
qed

lemma endsWith_char: "endsWith s [c] = (s \<noteq> [] \<and> last s = c)"
  by (cases s rule: rev_cases) (auto simp: endsWith_def)

lemma plain_nonempty:
  "\<forall>seg \<in> set segs. plain_segment seg \<Longrightarrow> filter (\<lambda>seg. seg \<noteq> []) segs = segs"
  by (induction segs) (auto simp: plain_segment_def)

lemma plain_no_slash:
  "\<forall>seg \<in> set segs. plain_segment seg \<Longrightarrow> \<forall>seg \<in> set segs. CHR ''/'' \<notin> set seg"
  by (auto simp: plain_segment_def)

lemma path_segments_absolute:
  assumes "segs \<noteq> []" and "\<forall>seg \<in> set segs. plain_segment seg"
  shows "path_segments (CHR ''/'' # join_slash segs) = segs"
  using assms
  by (simp add: path_segments_def split_slash_append [of "[]", simplified]
      split_join_slash plain_no_slash plain_nonempty)

lemma path_normalize_absolute:
  assumes "segs \<noteq> []" and "\<forall>seg \<in> set segs. plain_segment seg"
  shows "path_normalize (CHR ''/'' # join_slash segs) = CHR ''/'' # join_slash segs"
proof -
  have last: "last segs \<noteq> []" "CHR ''/'' \<notin> set (last segs)"
    using assms by (auto simp: plain_segment_def)
  with assms(1) have j: "join_slash segs \<noteq> []" "last (join_slash segs) = last (last segs)"
    using join_slash_last by auto
  with last have "last (join_slash segs) \<noteq> CHR ''/''"
    by (metis last_in_set)
  moreover have "split_slash (CHR ''/'' # join_slash segs) = [] # segs"
    using assms by (simp add: split_join_slash plain_no_slash)
  ultimately show ?thesis
    using assms j by (simp add: path_normalize_def normalizeString_plain)
qed

text \<open>\<^verbatim>\<open>/../name\<close> on the root \<^verbatim>\<open>/a/b/c\<close> is joined to \<^verbatim>\<open>/a/b/name\<close>.\<close>

lemma traversal_join:
  assumes "segs \<noteq> []" and "\<forall>seg \<in> set segs. plain_segment seg" and "plain_segment name"
  shows "path_join [CHR ''/'' # join_slash segs, ''/../'' @ name]
           = CHR ''/'' # join_slash (butlast segs @ [name])"
proof -
  have name: "name \<noteq> []" "CHR ''/'' \<notin> set name" "name \<noteq> ''.''" "name \<noteq> ''..''"
    using assms(3) by (auto simp: plain_segment_def)
  have last_plain: "plain_segment (last segs)"
    using assms by simp
  then have last_dots: "last segs \<noteq> ''..''"
    by (simp add: plain_segment_def)
  let ?joined = "(CHR ''/'' # join_slash segs) @ CHR ''/'' # CHR ''/'' # ''..'' @ CHR ''/'' # name"
  have joined: "join_slash [CHR ''/'' # join_slash segs, ''/../'' @ name] = ?joined"
    by simp
  have split: "split_slash ?joined = [] # segs @ [[], ''..'', name]"
    using assms name
    by (simp add: split_slash_append split_join_slash plain_no_slash split_slash_plain
        split_slash_append [of "[]", simplified]
        split_slash_append [of "''..''", simplified])
  have norm: "normalizeString False [] (segs @ [[], ''..'', name]) = butlast segs @ [name]"
    using assms name last_dots
    by (simp add: normalizeString_append normalizeString_plain)
  have out: "join_slash (butlast segs @ [name]) \<noteq> []"
    using join_slash_last [of "butlast segs @ [name]"] name by simp
  have "last ?joined = last name"
    using name by simp
  moreover have "last name \<noteq> CHR ''/''"
    using name by (metis last_in_set)
  ultimately have no_trailing: "last ?joined \<noteq> CHR ''/''"
    by simp
  have "path_normalize ?joined = CHR ''/'' # join_slash (butlast segs @ [name])"
    unfolding path_normalize_def Let_def split
    using out no_trailing by (simp add: norm)
  then show ?thesis
    unfolding path_join_def Let_def joined by simp
qed

lemma traversal_filePath:
  assumes "segs \<noteq> []" and "\<forall>seg \<in> set segs. plain_segment seg"
    and "plain_segment name" and "url_safe name"
  shows "filePath general (CHR ''/'' # join_slash segs) \<lparr>url = ''/../'' @ name\<rparr>
           = Inr (CHR ''/'' # join_slash (butlast segs @ [name]))"
proof -
  have name: "name \<noteq> []" "CHR ''/'' \<notin> set name"
    using assms(3) by (auto simp: plain_segment_def)
  note target = traversal_target [OF assms(4)]
  have parsed: "url_parse_pathname general (''/../'' @ name) = Inr (Some (''/../'' @ name))"
    using url_parse_pathname_simple [OF target(1)] by (simp only: target(2))
  have decoded: "decodeURIComponent (''/../'' @ name) = Inr (''/../'' @ name)"
    using target(3) by (rule decodeURIComponent_plain)
  have "last (''/../'' @ name) = last name"
    using name by simp
  moreover have "last name \<noteq> CHR ''/''"
    using name by (metis last_in_set)
  ultimately have "\<not> endsWith (''/../'' @ name) ''/''"
    by (simp add: endsWith_char)
  then show ?thesis
    unfolding filePath_def request.simps parsed
    by (simp add: decoded traversal_join [OF assms(1-3)] del: append.simps)
qed

lemma traversal_outside:
  assumes "segs \<noteq> []" and "\<forall>seg \<in> set segs. plain_segment seg"
    and "plain_segment name" and "name \<noteq> last segs"
  shows "\<not> inside_root (CHR ''/'' # join_slash segs)
            (CHR ''/'' # join_slash (butlast segs @ [name]))"
proof -
  have target: "\<forall>seg \<in> set (butlast segs @ [name]). plain_segment seg"
    using assms by (auto dest: in_set_butlastD)
  have "path_segments (CHR ''/'' # join_slash (butlast segs @ [name])) = butlast segs @ [name]"
    using target by (intro path_segments_absolute) auto
  moreover have "path_segments (path_normalize (CHR ''/'' # join_slash segs)) = segs"
    using assms by (simp add: path_normalize_absolute path_segments_absolute)
  moreover have "\<not> prefix segs (butlast segs @ [name])"
  proof
    assume "prefix segs (butlast segs @ [name])"
    then obtain rest where rest: "butlast segs @ [name] = segs @ rest"
      unfolding prefix_def by blast
    then have "length (butlast segs @ [name]) = length (segs @ rest)"
      by (rule arg_cong)
    with assms(1) have "rest = []"
      by simp
    with rest have "last (butlast segs @ [name]) = last segs"
      by simp
    with assms(4) show False
      by simp
  qed
  ultimately show ?thesis
    by (simp add: inside_root_def)
qed

text \<open>
  A path with a NUL byte. \<^verbatim>\<open>GET /%00\<close> is a simple path that decodes to a slash and a
  NUL byte; \<^verbatim>\<open>path.join\<close> keeps the byte, in the last segment of the joined path.
\<close>

lemma simple_NUL: "simple_path ''/%00''"
  by code_simp

lemma decode_NUL:
  "decodeURIComponent (backslashes_to_slashes (before_query ''/%00'')) = Inr [CHR ''/'', CHR 0x00]"
  by code_simp

lemma join_slash_snoc: "set seg \<subseteq> set (join_slash (segs @ [seg]))"
  by (induction segs rule: join_slash.induct) auto

lemma path_normalize_NUL: "CHR 0x00 \<in> set (path_normalize (pre @ [CHR ''/'', CHR 0x00]))"
proof -
  let ?p = "pre @ [CHR ''/'', CHR 0x00]"
  have split: "split_slash ?p = split_slash pre @ [[CHR 0x00]]"
    using split_slash_append [of pre "[CHR 0x00]"] by simp
  have "normalizeString allow [] (split_slash ?p)
          = normalizeString allow [] (split_slash pre) @ [[CHR 0x00]]" for allow
    unfolding split by (simp add: normalizeString_append)
  then have "CHR 0x00 \<in> set (join_slash (normalizeString allow [] (split_slash ?p)))" for allow
    using join_slash_snoc [of "[CHR 0x00]" "normalizeString allow [] (split_slash pre)"]
    by simp
  then have res: "CHR 0x00 \<in> set (join_slash (normalizeString allow [] (split_slash ?p)))"
    for allow
    by simp
  have nonempty: "join_slash (normalizeString allow [] (split_slash ?p)) \<noteq> []" for allow
    using res [of allow] by (cases "join_slash (normalizeString allow [] (split_slash ?p))") auto
  show ?thesis
    unfolding path_normalize_def Let_def using res nonempty by simp
qed

lemma path_join_NUL: "CHR 0x00 \<in> set (path_join [dir, [CHR ''/'', CHR 0x00]])"
proof (cases "dir = []")
  case True
  then show ?thesis
    using path_normalize_NUL [of "[]"] by (simp add: path_join_def)
next
  case False
  then show ?thesis
    using path_normalize_NUL [of "dir @ ''/''"] by (simp add: path_join_def)
qed

lemma filePath_NUL:
  "filePath general dir \<lparr>url = ''/%00''\<rparr> = Inr (path_join [dir, [CHR ''/'', CHR 0x00]])"
proof -
  have "\<not> endsWith [CHR ''/'', CHR 0x00] ''/''"
    by (simp add: endsWith_char)
  then show ?thesis
    unfolding filePath_def request.simps url_parse_pathname_simple [OF simple_NUL]
    by (simp add: decode_NUL del: list.simps)
qed

text \<open>
  C6. The request \<^verbatim>\<open>GET /%00\<close>: the file it resolves to has a NUL byte in its name and
  cannot be read. \<^verbatim>\<open>fs.readFile\<close> does not report this to its callback: it throws, and
  the \<^verbatim>\<open>if (err)\<close> of lines 86 to 90 is never reached. For every root and whatever the
  disk holds, the exception leaves the handler, which has no \<^verbatim>\<open>try\<close> around the call,
  and no response, not even the 404, is sent. The handler does answer with the 404 every
  error that \<^verbatim>\<open>readFile\<close> reports to its callback (\<open>read_failure_is_404\<close>). The missing
  \<^verbatim>\<open>try\<close> is the one that lets the \<^verbatim>\<open>URIError\<close> of a malformed escape leave the handler.
\<close>

theorem unreadable_path_leaves_the_handler:
  "requestHandler general dir (fs_readFile disk) \<lparr>url = ''/%00''\<rparr>
     = Threw (TypeError ''ERR_INVALID_ARG_VALUE'')"
  by (simp add: requestHandler_cases filePath_NUL fs_readFile_def path_join_NUL)

text \<open>
  C9. The file served for a request is \<^verbatim>\<open>path.join(root, pathname)\<close>, where \<^verbatim>\<open>pathname\<close>
  is the decoded path of the request, with \<^verbatim>\<open>index.html\<close> appended when it ends in
  \<^verbatim>\<open>/\<close>; what is read at that path is what is sent. The path of the request is what
  \<^verbatim>\<open>url.parse\<close> gives: for a simple path, what stands before the first \<^verbatim>\<open>?\<close>, its
  backslashes turned into slashes; for every other target, what the general parser
  answers. \<^verbatim>\<open>path.join\<close> resolves \<^verbatim>\<open>..\<close> segments and nothing compares the result with the
  root. So for every absolute root of plain segments, \<^verbatim>\<open>GET /../name\<close> resolves to
  \<^verbatim>\<open>name\<close> in the parent of the root, outside the root unless \<^verbatim>\<open>name\<close> is the root's own
  name. On a server for \<^verbatim>\<open>/tmp/site\<close>, \<^verbatim>\<open>GET /../secret.txt\<close>, the same path with its dots
  and slash percent encoded and a query after it, and the same path with a backslash for
  its second slash, resolve to \<^verbatim>\<open>/tmp/secret.txt\<close>, and that file is served.
\<close>

theorem served_path_is_unchecked_join:
  "(simple_path (url req)
      \<and> decodeURIComponent (backslashes_to_slashes (before_query (url req))) = Inr pathname
      \<or> \<not> simple_path (url req) \<and> general (url req) = Inr parsed
        \<and> decodeURIComponent (js_ToString parsed) = Inr pathname \<longrightarrow>
      filePath general dir req
        = Inr (path_join
                 [dir, if endsWith pathname ''/'' then pathname @ ''index.html'' else pathname])
      \<and> (fs (path_join
                [dir, if endsWith pathname ''/'' then pathname @ ''index.html'' else pathname])
            = ReadData data \<longrightarrow>
          (\<exists>hs. requestHandler general dir fs req
                  = Responded
                      \<lparr>res_headers = hs, res_status = Some 200, res_body = Some data\<rparr>)))
   \<and> (segs \<noteq> [] \<and> (\<forall>seg \<in> set segs. plain_segment seg) \<and> plain_segment name
        \<and> url_safe name \<and> name \<noteq> last segs \<longrightarrow>
        filePath general (CHR ''/'' # join_slash segs) \<lparr>url = ''/../'' @ name\<rparr>
          = Inr (CHR ''/'' # join_slash (butlast segs @ [name]))
        \<and> \<not> inside_root (CHR ''/'' # join_slash segs)
              (CHR ''/'' # join_slash (butlast segs @ [name])))
   \<and> filePath general ''/tmp/site'' \<lparr>url = ''/../secret.txt''\<rparr> = Inr ''/tmp/secret.txt''
   \<and> filePath general ''/tmp/site'' \<lparr>url = ''/%2e%2e%2fsecret.txt?v=1''\<rparr>
       = Inr ''/tmp/secret.txt''
   \<and> filePath general ''/tmp/site'' \<lparr>url = ''/..'' @ CHR 0x5C # ''secret.txt''\<rparr>
       = Inr ''/tmp/secret.txt''
   \<and> \<not> inside_root ''/tmp/site'' ''/tmp/secret.txt''
   \<and> requestHandler general ''/tmp/site'' example_fs \<lparr>url = ''/../secret.txt''\<rparr>
       = Responded
           \<lparr>res_headers =
              [(''Surrogate-Control'', ''no-store''),
               (''Cache-Control'', ''no-store, no-cache, must-revalidate, proxy-revalidate''),
               (''Expires'', ''0''),
               (''Content-Type'', ''application/octet-stream'')],
            res_status = Some 200, res_body = Some ''secret''\<rparr>
   \<and> \<not> simple_path ''http://host/x'' \<and> \<not> simple_path ''//user@host/x''
   \<and> \<not> simple_path ''///x'' \<and> \<not> simple_path ''/a#b''"
proof -
  have joined:
    "filePath general dir req
       = Inr (path_join
                [dir, if endsWith pathname ''/'' then pathname @ ''index.html'' else pathname])"
    if "simple_path (url req)
          \<and> decodeURIComponent (backslashes_to_slashes (before_query (url req))) = Inr pathname
        \<or> \<not> simple_path (url req) \<and> general (url req) = Inr parsed
          \<and> decodeURIComponent (js_ToString parsed) = Inr pathname"
    using that by (auto simp: filePath_def url_parse_pathname_def)
  have served:
    "\<exists>hs. requestHandler general dir fs req
            = Responded \<lparr>res_headers = hs, res_status = Some 200, res_body = Some data\<rparr>"
    if "filePath general dir req = Inr p" and "fs p = ReadData data" for p
    using that by (simp add: requestHandler_cases)
  have secret:
    "requestHandler general ''/tmp/site'' example_fs \<lparr>url = ''/../secret.txt''\<rparr>
       = Responded
           \<lparr>res_headers =
              [(''Surrogate-Control'', ''no-store''),
               (''Cache-Control'', ''no-store, no-cache, must-revalidate, proxy-revalidate''),
               (''Expires'', ''0''),
               (''Content-Type'', ''application/octet-stream'')],
            res_status = Some 200, res_body = Some ''secret''\<rparr>"
    by (simp add: requestHandler_cases filePath_traversal example_fs_secret extname_secret
        contentType_txt)
  have siblings:
    "filePath general (CHR ''/'' # join_slash segs) \<lparr>url = ''/../'' @ name\<rparr>
       = Inr (CHR ''/'' # join_slash (butlast segs @ [name]))
     \<and> \<not> inside_root (CHR ''/'' # join_slash segs)
           (CHR ''/'' # join_slash (butlast segs @ [name]))"
    if "segs \<noteq> [] \<and> (\<forall>seg \<in> set segs. plain_segment seg) \<and> plain_segment name
        \<and> url_safe name \<and> name \<noteq> last segs"
    using that traversal_filePath [of segs name] traversal_outside [of segs name] by blast
  show ?thesis
    using joined served siblings
    by (intro conjI impI filePath_traversal filePath_encoded_traversal
        filePath_backslash_traversal secret_outside secret not_simple_path_examples(1-3)
        not_simple_fragment)
      blast+
qed

theorem served_path_is_unchecked_join_witness:
  "simple_path (url \<lparr>url = ''/''\<rparr>)
   \<and> decodeURIComponent (backslashes_to_slashes (before_query (url \<lparr>url = ''/''\<rparr>))) = Inr ''/''
   \<and> filePath example_url_parse ''/tmp/site'' \<lparr>url = ''/''\<rparr> = Inr ''/tmp/site/index.html''
   \<and> example_fs ''/tmp/site/index.html'' = ReadData ''<html></html>''
   \<and> (\<exists>hs. requestHandler example_url_parse ''/tmp/site'' example_fs \<lparr>url = ''/''\<rparr>
             = Responded
                 \<lparr>res_headers = hs, res_status = Some 200,
                  res_body = Some ''<html></html>''\<rparr>)
   \<and> \<not> simple_path (url \<lparr>url = ''/a#b''\<rparr>)
   \<and> example_url_parse (url \<lparr>url = ''/a#b''\<rparr>) = Inr (Some ''/a'')
   \<and> decodeURIComponent (js_ToString (Some ''/a'')) = Inr ''/a''
   \<and> filePath example_url_parse ''/tmp/site'' \<lparr>url = ''/a#b''\<rparr> = Inr ''/tmp/site/a''
   \<and> plain_segment ''srv'' \<and> plain_segment ''www'' \<and> plain_segment ''id_rsa''
   \<and> url_safe ''id_rsa''
   \<and> filePath example_url_parse ''/srv/www'' \<lparr>url = ''/../id_rsa''\<rparr> = Inr ''/srv/id_rsa''
   \<and> \<not> inside_root ''/srv/www'' ''/srv/id_rsa''"
proof -
  have slash: "(if endsWith ''/'' ''/'' then ''/'' @ ''index.html'' else ''/'') = ''/index.html''"
    by (simp add: endsWith_def)
  have simple: "simple_path (url \<lparr>url = ''/''\<rparr>)"
    by (simp add: simple_slash)
  note at_index =
    served_path_is_unchecked_join [where fs = example_fs and dir = "''/tmp/site''"
      and data = "''<html></html>''" and general = example_url_parse,
      THEN conjunct1, rule_format, OF disjI1 [OF conjI [OF simple decode_slash]],
      unfolded slash join_index]
  have a: "(if endsWith ''/a'' ''/'' then ''/a'' @ ''index.html'' else ''/a'') = ''/a''"
    by (simp add: endsWith_def)
  have not_simple: "\<not> simple_path (url \<lparr>url = ''/a#b''\<rparr>)"
    and parsed: "example_url_parse (url \<lparr>url = ''/a#b''\<rparr>) = Inr (Some ''/a'')"
    by (simp_all add: not_simple_fragment example_url_parse_fragment)
  note at_fragment =
    served_path_is_unchecked_join [where fs = example_fs and dir = "''/tmp/site''"
      and general = example_url_parse,
      THEN conjunct1, rule_format,
      OF disjI2 [OF conjI [OF not_simple conjI [OF parsed decode_fragment]]],
      THEN conjunct1, unfolded a join_fragment]
  have plain: "plain_segment ''srv''" "plain_segment ''www''" "plain_segment ''id_rsa''"
    by (simp_all add: plain_segment_def)
  have safe: "url_safe ''id_rsa''"
    by code_simp
  have "[''srv'', ''www''] \<noteq> [] \<and> (\<forall>seg \<in> set [''srv'', ''www'']. plain_segment seg)
        \<and> plain_segment ''id_rsa'' \<and> url_safe ''id_rsa'' \<and> ''id_rsa'' \<noteq> last [''srv'', ''www'']"
    using plain safe by simp
  note sibling =
    served_path_is_unchecked_join [where segs = "[''srv'', ''www'']" and name = "''id_rsa''"
      and general = example_url_parse,
      THEN conjunct2, THEN conjunct1, rule_format, OF this, simplified]
  from at_index example_fs_index sibling show ?thesis
    by (intro conjI simple decode_slash example_fs_index not_simple parsed decode_fragment
        at_fragment plain safe) (blast+)
qed

section \<open>The registry\<close>

lemma serversByWindow_set_listening [simp]:
  "serversByWindow (set_listening h b s) = serversByWindow s"
  by (simp add: set_listening_def)

lemma is_listening_set_listening:
  "is_listening (set_listening h b s) h'
     = (if h' = h \<and> h < length (servers s) then b else is_listening s h')"
  by (auto simp: is_listening_def set_listening_def nth_list_update)

lemma delete_absent: "map_of al k = None \<Longrightarrow> AList.delete k al = al"
  by (simp add: AList.delete_notin_dom map_of_eq_None_iff)

lemma map_of_delete_self: "map_of (AList.delete k al) k = None"
  by (simp add: AList.delete_conv)

text \<open>The scenario, step by step.\<close>

lemma example_state_reached:
  "serveFolder example_config ''/tmp/site'' False ''w1'' (port_free 2929) initial_state
     = (example_state,
        [GetAvailablePort 2929 4000, CreateServer 0, Listen 0 2929,
         OnDone None (Some site_params)])"
  by (simp add: Let_def serveFolder_def onPortAvailable_def httpServer_listen_def
      listenCallback_def set_listening_def initial_state_def port_free_def example_state_def
      site_params_def)

lemma stale_state_reached:
  "serveFolder example_config ''/tmp/other'' False ''w1'' no_port example_state
     = (stale_state,
        [Close 0, GetAvailablePort 2929 4000,
         OnDone (Some (SystemError ''NoPortAvailable'')) None])"
  by (simp add: Let_def serveFolder_def closeExisting_def set_listening_def no_port_def
      example_state_def stale_state_def site_params_def)

lemma mixed_state_reached:
  "serveFolder example_config ''/tmp/game'' False ''w2'' (port_free 2930) stale_state
     = (mixed_state,
        [GetAvailablePort 2929 4000, CreateServer 1, Listen 1 2930,
         OnDone None (Some game_params)])"
  by (simp add: Let_def serveFolder_def onPortAvailable_def httpServer_listen_def
      listenCallback_def set_listening_def port_free_def stale_state_def mixed_state_def
      site_params_def game_params_def)

subsection \<open>\<^verbatim>\<open>stopServer\<close>\<close>

text \<open>
  C7. Without a record for the window, \<^verbatim>\<open>stopServer\<close> calls \<^verbatim>\<open>onDone\<close> with no error and
  changes nothing. With a record, once the close has completed, with an error or
  without, the window has no record any more and \<^verbatim>\<open>onDone\<close> has received just what the
  close reported.
\<close>

theorem stopServer_postconditions:
  "(map_of (serversByWindow s) windowId = None \<longrightarrow>
      stopServer windowId closing s = (s, [OnDone None None]))
   \<and> (map_of (serversByWindow s) windowId = Some server \<longrightarrow>
        stopServer windowId (CloseCompletes err) s
          = ((set_listening (httpServer server) False s)
               \<lparr>serversByWindow := AList.delete windowId (serversByWindow s)\<rparr>,
             [Close (httpServer server), OnDone err None])
        \<and> map_of (serversByWindow (fst (stopServer windowId (CloseCompletes err) s))) windowId
            = None)"
  by (simp add: stopServer_def closeCallback_def delete_absent map_of_delete_self)

theorem stopServer_postconditions_witness:
  "map_of (serversByWindow example_state) ''w2'' = None
   \<and> stopServer ''w2'' ClosePending example_state = (example_state, [OnDone None None])
   \<and> map_of (serversByWindow example_state) ''w1''
       = Some \<lparr>serverParams = site_params, httpServer = 0\<rparr>
   \<and> stopServer ''w1'' (CloseCompletes (Some (SystemError ''ERR_SERVER_NOT_RUNNING'')))
        example_state
       = (\<lparr>serversByWindow = [],
           servers =
             [\<lparr>listening = False, served_root = ''/tmp/site'', bound_port = 2929,
               for_window = ''w1''\<rparr>]\<rparr>,
          [Close 0, OnDone (Some (SystemError ''ERR_SERVER_NOT_RUNNING'')) None])"
  using stopServer_postconditions
      [where s = example_state and windowId = "''w2''" and closing = ClosePending]
    stopServer_postconditions
      [where s = example_state and windowId = "''w1''"
         and err = "Some (SystemError ''ERR_SERVER_NOT_RUNNING'')"]
  by (simp add: example_state_def set_listening_def)

subsection \<open>\<^verbatim>\<open>serveFolder\<close>\<close>

lemma serveFolder_fast_path:
  assumes "map_of (serversByWindow s) windowId = Some e" and "root (serverParams e) = dir"
  shows "serveFolder cfg dir useHttps windowId env s
           = (s, [OnDone None (Some (serverParams e))])"
  using assms by (simp add: serveFolder_def)

lemma closeExisting_no_OnDone: "closeExisting throws h s = (s1, tr) \<Longrightarrow> OnDone a b \<notin> set tr"
  by (auto simp: closeExisting_def split: option.splits)

lemma onPortAvailable_success:
  assumes "onPortAvailable cfg dir useHttps windowId env p s = (s2, tr)"
    and "OnDone None (Some params) \<in> set tr"
  shows "map_of (serversByWindow s2) windowId
           = Some \<lparr>serverParams = params, httpServer = length (servers s)\<rparr>
         \<and> root params = dir"
  using assms
  by (auto simp: onPortAvailable_def httpServer_listen_def listenCallback_def Let_def
      update_conv' split: option.splits if_splits prod.splits)

text \<open>A call that hands params to \<^verbatim>\<open>onDone\<close> leaves them in the window's record.\<close>

lemma serveFolder_success_registers:
  assumes "serveFolder cfg dir useHttps windowId env s = (s1, tr1)"
    and "OnDone None (Some params) \<in> set tr1"
  shows "\<exists>e. map_of (serversByWindow s1) windowId = Some e
             \<and> serverParams e = params \<and> root params = dir"
proof (cases "map_of (serversByWindow s) windowId")
  case None
  with assms show ?thesis
    by (auto simp: serveFolder_def Let_def split: sum.splits prod.splits
        dest!: onPortAvailable_success)
next
  case (Some e)
  show ?thesis
  proof (cases "root (serverParams e) = dir")
    case True
    with Some assms show ?thesis
      by (auto simp: serveFolder_def)
  next
    case False
    with Some assms show ?thesis
      by (auto simp: serveFolder_def Let_def split: sum.splits prod.splits
          dest!: onPortAvailable_success dest: closeExisting_no_OnDone)
  qed
qed

lemma serveFolder_repeatedly_fast_path:
  assumes "map_of (serversByWindow s) windowId = Some e" and "root (serverParams e) = dir"
  shows "serveFolder_repeatedly cfg dir windowId calls s
           = (s, replicate (length calls) [OnDone None (Some (serverParams e))])"
  using assms
  by (induction calls) (auto simp: serveFolder_fast_path)

text \<open>
  C1, as the code has it. Take calls of \<^verbatim>\<open>serveFolder\<close> for one window and one root,
  one after the other. Once a call has handed params to \<^verbatim>\<open>onDone\<close>, every later call,
  whatever its \<^verbatim>\<open>useHttps\<close> and whatever the world would answer, hands the same params
  to \<^verbatim>\<open>onDone\<close> and does nothing else: it asks for no port, creates and closes no
  server, and leaves the registry and the servers as they are.
\<close>

theorem serveFolder_idempotent_after_success:
  assumes "serveFolder cfg dir useHttps windowId env s = (s1, tr1)"
    and "OnDone None (Some params) \<in> set tr1"
  shows "serveFolder_repeatedly cfg dir windowId calls s1
           = (s1, replicate (length calls) [OnDone None (Some params)])"
proof -
  from serveFolder_success_registers [OF assms]
  obtain e where "map_of (serversByWindow s1) windowId = Some e"
    and "serverParams e = params" and "root params = dir"
    by blast
  then show ?thesis
    using serveFolder_repeatedly_fast_path [of s1 windowId e dir cfg calls] by simp
qed

theorem serveFolder_idempotent_after_success_witness:
  "serveFolder example_config ''/tmp/site'' False ''w1'' (port_free 2929) initial_state
     = (example_state,
        [GetAvailablePort 2929 4000, CreateServer 0, Listen 0 2929,
         OnDone None (Some site_params)])
   \<and> serveFolder_repeatedly example_config ''/tmp/site'' ''w1''
        [(True, no_port), (False, port_free 3000)] example_state
     = (example_state, [[OnDone None (Some site_params)], [OnDone None (Some site_params)]])"
proof -
  have "OnDone None (Some site_params)
          \<in> set [GetAvailablePort 2929 4000, CreateServer 0, Listen 0 2929,
                  OnDone None (Some site_params)]"
    by simp
  from serveFolder_idempotent_after_success [OF example_state_reached this,
      of "[(True, no_port), (False, port_free 3000)]"]
  show ?thesis
    by (simp add: example_state_reached)
qed

text \<open>
  C1, as it is worded, fails when the first call fails. Here the first of two calls for
  \<^verbatim>\<open>w1\<close> and \<^verbatim>\<open>/tmp/site\<close> finds no free port and registers nothing, so the second
  call asks for a port and starts a listener.
\<close>

theorem serveFolder_retries_after_failure:
  "serveFolder_repeatedly example_config ''/tmp/site'' ''w1''
       [(False, no_port), (False, port_free 2929)] initial_state
     = (example_state,
        [[GetAvailablePort 2929 4000, OnDone (Some (SystemError ''NoPortAvailable'')) None],
         [GetAvailablePort 2929 4000, CreateServer 0, Listen 0 2929,
          OnDone None (Some site_params)]])"
proof -
  have "serveFolder example_config ''/tmp/site'' False ''w1'' no_port
          (initial_state :: string state)
          = (initial_state,
             [GetAvailablePort 2929 4000, OnDone (Some (SystemError ''NoPortAvailable'')) None])"
    by (simp add: Let_def serveFolder_def no_port_def initial_state_def)
  then show ?thesis
    by (simp add: example_state_reached)
qed

text \<open>
  A call that hands no params to \<^verbatim>\<open>onDone\<close> has requested a port and leaves the records
  as they were; the next call for the same window and root requests a port again,
  whatever the world answers.
\<close>

lemma serveFolder_failure_registers_nothing:
  assumes "serveFolder cfg dir useHttps windowId env s = (s', tr)"
    and "\<forall>params. OnDone None (Some params) \<notin> set tr"
  shows "serversByWindow s' = serversByWindow s"
    and "GetAvailablePort 2929 4000 \<in> set tr"
    and "GetAvailablePort 2929 4000
           \<in> set (snd (serveFolder cfg dir useHttps' windowId env' s'))"
proof -
  have slow: "\<not> (case map_of (serversByWindow s) windowId of
                  Some e \<Rightarrow> root (serverParams e) = dir | None \<Rightarrow> False)"
    using assms by (auto simp: serveFolder_def Let_def split: option.splits)
  show same: "serversByWindow s' = serversByWindow s"
    using assms slow
    by (auto simp: serveFolder_def Let_def closeExisting_def onPortAvailable_def
        httpServer_listen_def listenCallback_def
        split: option.splits sum.splits if_splits prod.splits)
  show "GetAvailablePort 2929 4000 \<in> set tr"
    using assms(1) slow
    by (auto simp: serveFolder_def Let_def split: prod.splits)
  from slow same
  have "\<not> (case map_of (serversByWindow s') windowId of
             Some e \<Rightarrow> root (serverParams e) = dir | None \<Rightarrow> False)"
    by simp
  then show "GetAvailablePort 2929 4000
               \<in> set (snd (serveFolder cfg dir useHttps' windowId env' s'))"
    by (auto simp: serveFolder_def Let_def split: prod.splits)
qed

text \<open>
  C5. A first \<^verbatim>\<open>serveFolder\<close> whose port cannot be bound: the registry stays empty, but
  \<^verbatim>\<open>onDone\<close> is never called. \<^verbatim>\<open>listen\<close> reports the failure as an \<^verbatim>\<open>'error'\<close> event,
  not through its callback, and the event has no listener. With \<^verbatim>\<open>useHttps\<close> and
  certificate material that \<^verbatim>\<open>https.createServer\<close> refuses, the exception is thrown inside
  the promise handler and \<^verbatim>\<open>onDone\<close> is not called either. The callback of lines 122
  to 130 would pass an error on to \<^verbatim>\<open>onDone\<close> and leave the registry alone, but
  \<^verbatim>\<open>listen\<close> never calls it with one.
\<close>

theorem bind_failure_is_not_reported:
  "serveFolder cfg dir False windowId
       \<lparr>close_throws = c, available_port = Inr p, tls_error = t, bind_error = Some e\<rparr>
       initial_state
     = (\<lparr>serversByWindow = [],
         servers =
           [\<lparr>listening = False, served_root = dir, bound_port = p, for_window = windowId\<rparr>]\<rparr>,
        [GetAvailablePort 2929 4000, CreateServer 0, Listen 0 p, Uncaught e])
   \<and> serveFolder cfg dir True windowId
       \<lparr>close_throws = c, available_port = Inr p, tls_error = Some e, bind_error = b\<rparr>
       initial_state
     = (initial_state, [GetAvailablePort 2929 4000, Uncaught e])
   \<and> listenCallback windowId params h (Some e) s = (s, [OnDone (Some e) None])
   \<and> httpServer_listen h p (listenCallback windowId params h) (Some e) s
     = (s, [Listen h p, Uncaught e])"
  by (simp add: Let_def serveFolder_def onPortAvailable_def httpServer_listen_def
      listenCallback_def initial_state_def)

subsection \<open>\<^verbatim>\<open>stopAllServers\<close>\<close>

lemma stopOne_listening_other:
  assumes "stopOne env server (s, tr) = (s', tr')" and "h \<noteq> httpServer server"
  shows "is_listening s' h = is_listening s h"
  using assms
  by (auto simp: stopOne_def Let_def is_listening_set_listening split: if_splits option.splits)

lemma stopOne_listening_mono:
  assumes "stopOne env server (s, tr) = (s', tr')" and "is_listening s' h"
  shows "is_listening s h"
  using assms
  by (auto simp: stopOne_def Let_def is_listening_set_listening split: if_splits option.splits)

lemma stopOne_trace:
  assumes "stopOne env server (s, tr) = (s', tr')"
  shows "\<exists>new. tr' = tr @ new
           \<and> set new \<subseteq> {Close (httpServer server), CloseAllConnections (httpServer server)}
           \<and> (new \<noteq> [] \<longrightarrow> is_listening s (httpServer server))"
  using assms
  by (auto simp: stopOne_def Let_def split: if_splits option.splits)

lemma stopOne_attempt:
  assumes "stopOne env server (s, tr) = (s', tr')" and "is_listening s (httpServer server)"
  shows "(has_closeAllConnections env \<longrightarrow> CloseAllConnections (httpServer server) \<in> set tr')
       \<and> ((has_closeAllConnections env \<longrightarrow>
              closeAllConnections_throws env (httpServer server) = None)
            \<longrightarrow> Close (httpServer server) \<in> set tr')"
  using assms
  by (auto simp: stopOne_def Let_def split: if_splits option.splits)

lemma stopEach_Nil [simp]: "stopEach env [] acc = acc"
  by (simp add: stopEach_def)

lemma stopEach_Cons [simp]:
  "stopEach env ((w, server) # entries) acc = stopEach env entries (stopOne env server acc)"
  by (simp add: stopEach_def)

lemma stopEach_trace_grows:
  "stopEach env entries (s, tr) = (s', tr') \<Longrightarrow> set tr \<subseteq> set tr'"
proof (induction entries arbitrary: s tr)
  case Nil
  then show ?case by simp
next
  case (Cons entry entries)
  obtain w server where entry: "entry = (w, server)" by (cases entry)
  obtain s1 tr1 where one: "stopOne env server (s, tr) = (s1, tr1)"
    by (cases "stopOne env server (s, tr)")
  from stopOne_trace [OF one] have "set tr \<subseteq> set tr1" by auto
  moreover from Cons.prems entry one have "stopEach env entries (s1, tr1) = (s', tr')"
    by simp
  then have "set tr1 \<subseteq> set tr'" by (rule Cons.IH)
  ultimately show ?case by blast
qed

text \<open>Every call the loop makes is a teardown call on a server that was listening.\<close>

lemma stopEach_only_listening:
  assumes "stopEach env entries (s, tr) = (s', tr')"
    and "ev \<in> set tr'" and "ev \<notin> set tr"
  shows "\<exists>h. (ev = Close h \<or> ev = CloseAllConnections h) \<and> is_listening s h
            \<and> h \<in> set (map (httpServer \<circ> snd) entries)"
  using assms
proof (induction entries arbitrary: s tr)
  case Nil
  then show ?case by simp
next
  case (Cons entry entries)
  obtain w server where entry: "entry = (w, server)" by (cases entry)
  obtain s1 tr1 where one: "stopOne env server (s, tr) = (s1, tr1)"
    by (cases "stopOne env server (s, tr)")
  from Cons.prems(1) entry one have rest: "stopEach env entries (s1, tr1) = (s', tr')"
    by simp
  show ?case
  proof (cases "ev \<in> set tr1")
    case True
    with stopOne_trace [OF one] Cons.prems(3) entry show ?thesis
      by auto
  next
    case False
    from Cons.IH [OF rest Cons.prems(2) False]
    obtain h where h: "ev = Close h \<or> ev = CloseAllConnections h" "is_listening s1 h"
      "h \<in> set (map (httpServer \<circ> snd) entries)"
      by blast
    from stopOne_listening_mono [OF one h(2)] h show ?thesis
      by auto
  qed
qed

text \<open>Every entry whose server is listening gets its teardown.\<close>

lemma stopEach_attempts:
  assumes "stopEach env entries (s, tr) = (s', tr')"
    and "(w, server) \<in> set entries" and "is_listening s (httpServer server)"
  shows "(has_closeAllConnections env \<longrightarrow> CloseAllConnections (httpServer server) \<in> set tr')
       \<and> ((has_closeAllConnections env \<longrightarrow>
              closeAllConnections_throws env (httpServer server) = None)
            \<longrightarrow> Close (httpServer server) \<in> set tr')"
  using assms
proof (induction entries arbitrary: s tr)
  case Nil
  then show ?case by simp
next
  case (Cons entry entries)
  obtain w1 server1 where entry: "entry = (w1, server1)" by (cases entry)
  obtain s1 tr1 where one: "stopOne env server1 (s, tr) = (s1, tr1)"
    by (cases "stopOne env server1 (s, tr)")
  from Cons.prems(1) entry one have rest: "stopEach env entries (s1, tr1) = (s', tr')"
    by simp
  show ?case
  proof (cases "httpServer server1 = httpServer server")
    case True
    with stopOne_attempt [OF one] Cons.prems(3) stopEach_trace_grows [OF rest]
    show ?thesis by auto
  next
    case False
    with Cons.prems(2) entry have "(w, server) \<in> set entries" by auto
    moreover from stopOne_listening_other [OF one] False Cons.prems(3)
    have "is_listening s1 (httpServer server)" by simp
    ultimately show ?thesis using Cons.IH [OF rest] by blast
  qed
qed

lemma stopAllServers_stopEach:
  "stopAllServers env s
     = (fst (stopEach env (serversByWindow s) (s, []))\<lparr>serversByWindow := []\<rparr>,
        snd (stopEach env (serversByWindow s) (s, [])))"
  by (simp add: stopAllServers_def split: prod.splits)

lemma stopAllServers_mixed:
  "stopAllServers example_shutdown mixed_state
     = (\<lparr>serversByWindow = [],
         servers =
           [\<lparr>listening = False, served_root = ''/tmp/site'', bound_port = 2929,
             for_window = ''w1''\<rparr>,
            \<lparr>listening = False, served_root = ''/tmp/game'', bound_port = 2930,
             for_window = ''w2''\<rparr>]\<rparr>,
        [CloseAllConnections 1, Close 1])"
  by (simp add: Let_def stopAllServers_def stopEach_def stopOne_def is_listening_def
      set_listening_def mixed_state_def example_shutdown_def)

text \<open>
  C8, as the code has it. From every state and whatever the teardown calls do,
  \<^verbatim>\<open>stopAllServers\<close> throws nothing and leaves the registry empty. For every record whose
  server is listening it attempts the teardown: it calls \<^verbatim>\<open>closeAllConnections\<close> where
  the runtime has it, and then \<^verbatim>\<open>close\<close>, which it reaches unless
  \<^verbatim>\<open>closeAllConnections\<close> has thrown. On a record whose server is not listening it calls
  neither.
\<close>

theorem stopAllServers_closes_listening_and_clears:
  "serversByWindow (fst (stopAllServers env s)) = []
   \<and> (\<forall>e. Throws e \<notin> set (snd (stopAllServers env s)))
   \<and> (\<forall>(windowId, server) \<in> set (serversByWindow s).
        if is_listening s (httpServer server)
        then (has_closeAllConnections env \<longrightarrow>
                CloseAllConnections (httpServer server) \<in> set (snd (stopAllServers env s)))
           \<and> ((has_closeAllConnections env \<longrightarrow>
                  closeAllConnections_throws env (httpServer server) = None)
                \<longrightarrow> Close (httpServer server) \<in> set (snd (stopAllServers env s)))
        else Close (httpServer server) \<notin> set (snd (stopAllServers env s))
           \<and> CloseAllConnections (httpServer server) \<notin> set (snd (stopAllServers env s)))"
proof -
  obtain s' tr' where run: "stopEach env (serversByWindow s) (s, []) = (s', tr')"
    by (cases "stopEach env (serversByWindow s) (s, [])")
  have all: "stopAllServers env s = (s'\<lparr>serversByWindow := []\<rparr>, tr')"
    by (simp add: stopAllServers_stopEach run)
  have only: "\<exists>h. (ev = Close h \<or> ev = CloseAllConnections h) \<and> is_listening s h"
    if "ev \<in> set tr'" for ev
    using stopEach_only_listening [OF run that] by auto
  have no_throw: "Throws e \<notin> set tr'" for e
    using only [of "Throws e"] by auto
  have closed: "Close h \<notin> set tr' \<and> CloseAllConnections h \<notin> set tr'"
    if "\<not> is_listening s h" for h
    using only [of "Close h"] only [of "CloseAllConnections h"] that by auto
  show ?thesis
    using no_throw closed stopEach_attempts [OF run]
    by (auto simp: all)
qed

theorem stopAllServers_closes_listening_and_clears_witness:
  "serversByWindow (fst (stopAllServers example_shutdown mixed_state)) = []
   \<and> is_listening mixed_state 1
   \<and> CloseAllConnections 1 \<in> set (snd (stopAllServers example_shutdown mixed_state))
   \<and> Close 1 \<in> set (snd (stopAllServers example_shutdown mixed_state))
   \<and> \<not> is_listening mixed_state 0
   \<and> Close 0 \<notin> set (snd (stopAllServers example_shutdown mixed_state))"
  using stopAllServers_closes_listening_and_clears [of example_shutdown mixed_state]
  by (simp add: stopAllServers_mixed) (simp add: mixed_state_def is_listening_def)

text \<open>
  C8, as it is worded, fails on a record whose listener is already closed. In the state
  that the failed \<^verbatim>\<open>serveFolder\<close> above leaves, \<^verbatim>\<open>w1\<close> has a record for server 0, and
  \<^verbatim>\<open>stopAllServers\<close> makes no call at all: line 160 skips a server that is not listening.
\<close>

theorem stopAllServers_skips_closed_listener:
  "map_of (serversByWindow stale_state) ''w1''
     = Some \<lparr>serverParams = site_params, httpServer = 0\<rparr>
   \<and> stopAllServers example_shutdown stale_state = (stale_state\<lparr>serversByWindow := []\<rparr>, [])"
  by (simp add: Let_def stopAllServers_def stopEach_def stopOne_def is_listening_def
      stale_state_def)

subsection \<open>The invariant of the registry\<close>

text \<open>
  A call of \<^verbatim>\<open>serveFolder\<close>, \<^verbatim>\<open>stopServer\<close> or \<^verbatim>\<open>stopAllServers\<close>, as long as no
  \<^verbatim>\<open>close\<close> call in it throws, keeps every listening server the one that its window's
  record names; in such a state no window has two live listeners. A close callback that
  runs after later calls does not keep it.
\<close>

lemma live_listeners_iff:
  "h \<in> set (live_listeners s w)
     \<longleftrightarrow> h < length (servers s) \<and> listening (servers s ! h) \<and> for_window (servers s ! h) = w"
  by (auto simp: live_listeners_def)

lemma distinct_live_listeners: "distinct (live_listeners s w)"
  by (simp add: live_listeners_def)

lemma at_most_one_live_listener:
  assumes "registered_listeners s"
  shows "length (live_listeners s w) \<le> 1"
proof (cases "map_of (serversByWindow s) w")
  case None
  with assms have "h \<notin> set (live_listeners s w)" for h
    unfolding live_listeners_iff registered_listeners_def by force
  then have "live_listeners s w = []"
    by (cases "live_listeners s w") auto
  then show ?thesis by simp
next
  case (Some e)
  with assms have "h \<in> set (live_listeners s w) \<Longrightarrow> h = httpServer e" for h
    unfolding live_listeners_iff registered_listeners_def by force
  then have "set (live_listeners s w) \<subseteq> {httpServer e}"
    by blast
  then have "card (set (live_listeners s w)) \<le> card {httpServer e}"
    by (intro card_mono) auto
  then show ?thesis
    by (simp add: distinct_card [OF distinct_live_listeners])
qed

lemma registered_set_listening_False:
  "registered_listeners s \<Longrightarrow> registered_listeners (set_listening h False s)"
  by (auto simp: registered_listeners_def set_listening_def nth_list_update)

lemma registered_closeExisting:
  "registered_listeners s \<Longrightarrow> closeExisting throws h s = (s1, tr)
     \<Longrightarrow> registered_listeners s1"
  by (auto simp: closeExisting_def registered_set_listening_False split: option.splits)

lemma no_live_listener_unregistered:
  assumes "registered_listeners s" and "map_of (serversByWindow s) w = None"
  shows "no_live_listener s w"
  using assms unfolding registered_listeners_def no_live_listener_def by force

lemma no_live_listener_after_close:
  assumes "registered_listeners s" and "map_of (serversByWindow s) w = Some e"
  shows "no_live_listener (set_listening (httpServer e) False s) w"
  unfolding no_live_listener_def
proof (intro allI impI)
  fix h
  assume h: "h < length (servers (set_listening (httpServer e) False s))"
    and live: "listening (servers (set_listening (httpServer e) False s) ! h)"
  from h have len: "h < length (servers s)"
    by (simp add: set_listening_def split: if_splits)
  from live len have other: "h \<noteq> httpServer e" and was: "listening (servers s ! h)"
    by (auto simp: set_listening_def nth_list_update split: if_splits)
  show "for_window (servers (set_listening (httpServer e) False s) ! h) \<noteq> w"
  proof
    assume "for_window (servers (set_listening (httpServer e) False s) ! h) = w"
    with len have "for_window (servers s ! h) = w"
      by (auto simp: set_listening_def nth_list_update split: if_splits)
    with assms len was have "h = httpServer e"
      unfolding registered_listeners_def by force
    with other show False by simp
  qed
qed

lemma registered_onPortAvailable:
  assumes "registered_listeners s" and "no_live_listener s windowId"
    and "onPortAvailable cfg dir useHttps windowId env p s = (s2, tr)"
  shows "registered_listeners s2"
proof -
  let ?new = "\<lparr>listening = False, served_root = dir, bound_port = p, for_window = windowId\<rparr>"
  let ?params = "\<lparr>port = p, root = dir, open = False, wait = 1000,
                  https = (if useHttps then Some cfg else None), watch = []\<rparr>"
  let ?h = "length (servers s)"
  consider (refused) "s2 = s"
    | (unbound) "s2 = s\<lparr>servers := servers s @ [?new]\<rparr>"
    | (bound) "s2 = s\<lparr>servers := servers s @ [?new\<lparr>listening := True\<rparr>],
                       serversByWindow :=
                         AList.update windowId \<lparr>serverParams = ?params, httpServer = ?h\<rparr>
                           (serversByWindow s)\<rparr>"
    using assms(3)
    by (auto simp: onPortAvailable_def httpServer_listen_def listenCallback_def Let_def
        set_listening_def split: option.splits if_splits)
  then show ?thesis
  proof cases
    case refused
    with assms(1) show ?thesis by simp
  next
    case unbound
    with assms(1) show ?thesis
      by (auto simp: registered_listeners_def nth_append less_Suc_eq)
  next
    case bound
    show ?thesis
      unfolding registered_listeners_def
    proof (intro allI impI)
      fix h
      assume h: "h < length (servers s2)" and live: "listening (servers s2 ! h)"
      show "\<exists>e. map_of (serversByWindow s2) (for_window (servers s2 ! h)) = Some e
                \<and> httpServer e = h"
      proof (cases "h < ?h")
        case True
        with bound live have was: "listening (servers s ! h)"
          and same: "servers s2 ! h = servers s ! h"
          by (auto simp: nth_append)
        with assms(2) True have "for_window (servers s ! h) \<noteq> windowId"
          by (simp add: no_live_listener_def)
        moreover from assms(1) True was
        obtain e where "map_of (serversByWindow s) (for_window (servers s ! h)) = Some e"
          and "httpServer e = h"
          unfolding registered_listeners_def by blast
        ultimately show ?thesis
          using bound same by (simp add: update_conv')
      next
        case False
        with h bound have "h = ?h" by simp
        with bound show ?thesis
          by (simp add: update_conv')
      qed
    qed
  qed
qed

theorem serveFolder_keeps_listeners_registered:
  assumes "registered_listeners s" and "close_throws env = None"
  shows "registered_listeners (fst (serveFolder cfg dir useHttps windowId env s))"
proof (cases "map_of (serversByWindow s) windowId")
  case None
  note quiet = no_live_listener_unregistered [OF assms(1) None]
  show ?thesis
  proof (cases "available_port env")
    case (Inl err)
    with None assms(1) show ?thesis
      by (simp add: serveFolder_def)
  next
    case (Inr p)
    obtain s2 tr where run: "onPortAvailable cfg dir useHttps windowId env p s = (s2, tr)"
      by (cases "onPortAvailable cfg dir useHttps windowId env p s")
    from registered_onPortAvailable [OF assms(1) quiet run] None Inr run show ?thesis
      by (simp add: serveFolder_def)
  qed
next
  case (Some e)
  show ?thesis
  proof (cases "root (serverParams e) = dir")
    case True
    with Some assms(1) show ?thesis
      by (simp add: serveFolder_def)
  next
    case False
    let ?s1 = "set_listening (httpServer e) False s"
    have closed: "closeExisting (close_throws env) (httpServer e) s = (?s1, [Close (httpServer e)])"
      using assms(2) by (simp add: closeExisting_def)
    have reg1: "registered_listeners ?s1"
      using assms(1) by (rule registered_set_listening_False)
    have quiet: "no_live_listener ?s1 windowId"
      using assms(1) Some by (rule no_live_listener_after_close)
    show ?thesis
    proof (cases "available_port env")
      case (Inl err)
      with Some False closed reg1 show ?thesis
        by (simp add: serveFolder_def)
    next
      case (Inr p)
      obtain s2 tr where run: "onPortAvailable cfg dir useHttps windowId env p ?s1 = (s2, tr)"
        by (cases "onPortAvailable cfg dir useHttps windowId env p ?s1")
      from registered_onPortAvailable [OF reg1 quiet run] Some False closed Inr run
      show ?thesis
        by (simp add: serveFolder_def)
    qed
  qed
qed

lemma registered_delete:
  assumes "registered_listeners s" and "no_live_listener s w"
  shows "registered_listeners (s\<lparr>serversByWindow := AList.delete w (serversByWindow s)\<rparr>)"
  using assms
  unfolding registered_listeners_def no_live_listener_def
  by (auto simp: delete_conv')

theorem stopServer_keeps_listeners_registered:
  assumes "registered_listeners s"
  shows "registered_listeners (fst (stopServer windowId closing s))"
proof (cases "map_of (serversByWindow s) windowId")
  case None
  from registered_delete [OF assms no_live_listener_unregistered [OF assms None]] None
  show ?thesis
    by (simp add: stopServer_def)
next
  case (Some server)
  let ?s1 = "set_listening (httpServer server) False s"
  have reg1: "registered_listeners ?s1"
    using assms by (rule registered_set_listening_False)
  have quiet: "no_live_listener ?s1 windowId"
    using assms Some by (rule no_live_listener_after_close)
  from registered_delete [OF reg1 quiet] reg1 assms Some show ?thesis
    by (cases closing) (simp_all add: stopServer_def closeCallback_def)
qed

lemma stopEach_listening_mono:
  "stopEach env entries (s, tr) = (s', tr') \<Longrightarrow> is_listening s' h \<Longrightarrow> is_listening s h"
proof (induction entries arbitrary: s tr)
  case Nil
  then show ?case by simp
next
  case (Cons entry entries)
  obtain w server where entry: "entry = (w, server)" by (cases entry)
  obtain s1 tr1 where one: "stopOne env server (s, tr) = (s1, tr1)"
    by (cases "stopOne env server (s, tr)")
  from Cons.prems(1) entry one have "stopEach env entries (s1, tr1) = (s', tr')"
    by simp
  from Cons.IH [OF this Cons.prems(2)] have "is_listening s1 h" .
  with one show ?case by (rule stopOne_listening_mono)
qed

lemma stopOne_closes:
  assumes "stopOne env server (s, tr) = (s', tr')"
    and "\<forall>h. closeAllConnections_throws env h = None \<and> close_throws_on env h = None"
  shows "\<not> is_listening s' (httpServer server)"
  using assms
  by (auto simp: stopOne_def Let_def is_listening_set_listening split: if_splits)
    (auto simp: is_listening_def)

lemma stopEach_closes:
  assumes "stopEach env entries (s, tr) = (s', tr')"
    and "\<forall>h. closeAllConnections_throws env h = None \<and> close_throws_on env h = None"
    and "(w, server) \<in> set entries"
  shows "\<not> is_listening s' (httpServer server)"
  using assms
proof (induction entries arbitrary: s tr)
  case Nil
  then show ?case by simp
next
  case (Cons entry entries)
  obtain w1 server1 where entry: "entry = (w1, server1)" by (cases entry)
  obtain s1 tr1 where one: "stopOne env server1 (s, tr) = (s1, tr1)"
    by (cases "stopOne env server1 (s, tr)")
  from Cons.prems(1) entry one have rest: "stopEach env entries (s1, tr1) = (s', tr')"
    by simp
  show ?case
  proof (cases "(w, server) \<in> set entries")
    case True
    from Cons.IH [OF rest Cons.prems(2) True] show ?thesis .
  next
    case False
    with Cons.prems(3) entry have "server1 = server" by simp
    with stopOne_closes [OF one Cons.prems(2)] have "\<not> is_listening s1 (httpServer server)"
      by simp
    with stopEach_listening_mono [OF rest] show ?thesis by blast
  qed
qed

theorem stopAllServers_closes_every_listener:
  assumes "registered_listeners s"
    and "\<forall>h. closeAllConnections_throws env h = None \<and> close_throws_on env h = None"
  shows "\<forall>h. \<not> is_listening (fst (stopAllServers env s)) h"
proof
  fix h
  obtain s' tr' where run: "stopEach env (serversByWindow s) (s, []) = (s', tr')"
    by (cases "stopEach env (serversByWindow s) (s, [])")
  have all: "fst (stopAllServers env s) = s'\<lparr>serversByWindow := []\<rparr>"
    by (simp add: stopAllServers_stopEach run)
  show "\<not> is_listening (fst (stopAllServers env s)) h"
  proof
    assume "is_listening (fst (stopAllServers env s)) h"
    then have live': "is_listening s' h"
      by (simp add: all is_listening_def)
    with stopEach_listening_mono [OF run] have live: "is_listening s h" by blast
    with assms(1) obtain e
      where "map_of (serversByWindow s) (for_window (servers s ! h)) = Some e"
        and "httpServer e = h"
      unfolding registered_listeners_def is_listening_def by blast
    then have "(for_window (servers s ! h), e) \<in> set (serversByWindow s)"
      by (simp add: map_of_SomeD)
    from stopEach_closes [OF run assms(2) this] \<open>httpServer e = h\<close> live' show False
      by simp
  qed
qed

lemma registered_initial: "registered_listeners initial_state"
  by (simp add: registered_listeners_def initial_state_def)

text \<open>
  A close callback that runs late. \<^verbatim>\<open>stopServer\<close> for \<^verbatim>\<open>w1\<close> returns while the close of
  server 0 is pending. A \<^verbatim>\<open>serveFolder\<close> for \<^verbatim>\<open>w1\<close> then starts server 1 for
  \<^verbatim>\<open>/tmp/other\<close> on port 2930 and records it. Then the close completes, and its callback
  deletes the record that \<^verbatim>\<open>w1\<close> has at that moment, which is the record of server 1:
  server 1 is listening and no record names it. The next \<^verbatim>\<open>serveFolder\<close> for \<^verbatim>\<open>w1\<close> finds
  no record, closes nothing and starts server 2: the window has two live listeners.
\<close>

lemma late_close_callback_orphans_listener:
  "stopServer ''w1'' ClosePending example_state = (stale_state, [Close 0])
   \<and> snd (serveFolder example_config ''/tmp/other'' False ''w1'' (port_free 2930) stale_state)
       = [Close 0, GetAvailablePort 2929 4000, CreateServer 1, Listen 1 2930,
          OnDone None (Some (site_params\<lparr>port := 2930, root := ''/tmp/other''\<rparr>))]
   \<and> map_of (serversByWindow (fst (serveFolder example_config ''/tmp/other'' False ''w1''
                                     (port_free 2930) stale_state))) ''w1''
       = Some \<lparr>serverParams = site_params\<lparr>port := 2930, root := ''/tmp/other''\<rparr>,
               httpServer = 1\<rparr>
   \<and> snd (closeCallback ''w1'' None
             (fst (serveFolder example_config ''/tmp/other'' False ''w1'' (port_free 2930)
                     stale_state)))
       = [OnDone None None]
   \<and> map_of (serversByWindow after_late_close) ''w1'' = None
   \<and> live_listeners after_late_close ''w1'' = [1]
   \<and> \<not> registered_listeners after_late_close
   \<and> live_listeners
         (fst (serveFolder example_config ''/tmp/site'' False ''w1'' (port_free 2931)
                 after_late_close)) ''w1''
       = [1, 2]"
proof -
  have "servers after_late_close ! 1
          = \<lparr>listening = True, served_root = ''/tmp/other'', bound_port = 2930,
             for_window = ''w1''\<rparr>"
    and "length (servers after_late_close) = 2"
    and unrecorded: "map_of (serversByWindow after_late_close) ''w1'' = None"
    by (simp_all add: after_late_close_def Let_def serveFolder_def closeExisting_def
        onPortAvailable_def httpServer_listen_def listenCallback_def closeCallback_def
        set_listening_def port_free_def stale_state_def site_params_def)
  then have "\<not> registered_listeners after_late_close"
    unfolding registered_listeners_def by (auto intro!: exI [of _ 1])
  then show ?thesis
    using unrecorded
    by (simp add: after_late_close_def Let_def stopServer_def serveFolder_def
        closeExisting_def onPortAvailable_def httpServer_listen_def listenCallback_def
        closeCallback_def set_listening_def live_listeners_def port_free_def
        example_state_def stale_state_def site_params_def example_config_def upt_rec)
qed

lemma registry_invariant_example: "registry_invariant example_state"
  by (simp add: registry_invariant_def live_listeners_def example_state_def site_params_def)

lemma registry_invariant_stale: "\<not> registry_invariant stale_state"
  by (simp add: registry_invariant_def live_listeners_def stale_state_def)

text \<open>
  C4. The invariant does not survive a failed \<^verbatim>\<open>serveFolder\<close>. It holds while \<^verbatim>\<open>w1\<close>
  previews \<^verbatim>\<open>/tmp/site\<close>. A \<^verbatim>\<open>serveFolder\<close> for \<^verbatim>\<open>w1\<close> with another root closes the listener
  and then finds no free port: the record of \<^verbatim>\<open>w1\<close> is still there, its listener is
  closed, \<^verbatim>\<open>w1\<close> has no live listener, and the invariant is broken. The next
  \<^verbatim>\<open>serveFolder\<close> for the old root answers from that record, with the port of the
  closed listener.
\<close>

theorem failed_reserve_leaves_stale_record:
  "registry_invariant example_state
   \<and> serveFolder example_config ''/tmp/other'' False ''w1'' no_port example_state
       = (stale_state,
          [Close 0, GetAvailablePort 2929 4000,
           OnDone (Some (SystemError ''NoPortAvailable'')) None])
   \<and> map_of (serversByWindow stale_state) ''w1''
       = Some \<lparr>serverParams = site_params, httpServer = 0\<rparr>
   \<and> \<not> is_listening stale_state 0
   \<and> live_listeners stale_state ''w1'' = []
   \<and> \<not> registry_invariant stale_state
   \<and> serveFolder example_config ''/tmp/site'' False ''w1'' (port_free 2929) stale_state
       = (stale_state, [OnDone None (Some site_params)])"
  by (simp add: registry_invariant_example registry_invariant_stale stale_state_reached)
    (simp add: Let_def stale_state_def is_listening_def live_listeners_def serveFolder_def
      site_params_def)

end
